theory Spec2Isabelle
  imports Complex_Main
begin

section \<open>Strings\<close>

text \<open>
  Message content is a JavaScript string. It is modelled as a \<^typ>\<open>string\<close>: a list of
  code units below 256 (the Latin-1 range of UTF-16), on which \<open>length\<close> is the
  JavaScript \<open>length\<close> and \<open>toLowerCase\<close> maps one code unit to one code unit.
\<close>

definition toLowerCase_char :: "char \<Rightarrow> char" where
  "toLowerCase_char c =
     (let n = (of_char c :: nat)
      in if (65 \<le> n \<and> n \<le> 90) \<or> (192 \<le> n \<and> n \<le> 222 \<and> n \<noteq> 215)
         then char_of (n + 32) else c)"

definition toLowerCase :: "string \<Rightarrow> string" where
  "toLowerCase s = map toLowerCase_char s"

text \<open>\<open>startsWith hay needle\<close>: \<open>needle\<close> occurs in \<open>hay\<close> at position 0.\<close>

fun startsWith :: "string \<Rightarrow> string \<Rightarrow> bool" where
  "startsWith hay [] = True"
| "startsWith [] (n # ns) = False"
| "startsWith (h # hs) (n # ns) = (h = n \<and> startsWith hs ns)"

text \<open>\<open>String.prototype.includes\<close>: does \<open>needle\<close> occur somewhere in \<open>hay\<close>.\<close>

fun includes_str :: "string \<Rightarrow> string \<Rightarrow> bool" where
  "includes_str [] needle = startsWith [] needle"
| "includes_str (h # hs) needle = (startsWith (h # hs) needle \<or> includes_str hs needle)"

text \<open>\<open>String.prototype.indexOf\<close>: the first position of \<open>needle\<close>, or -1.\<close>

fun indexOf_from :: "nat \<Rightarrow> string \<Rightarrow> string \<Rightarrow> int" where
  "indexOf_from i [] needle = (if startsWith [] needle then int i else - 1)"
| "indexOf_from i (h # hs) needle =
     (if startsWith (h # hs) needle then int i else indexOf_from (Suc i) hs needle)"

definition indexOf :: "string \<Rightarrow> string \<Rightarrow> int" where
  "indexOf hay needle = indexOf_from 0 hay needle"

section \<open>The three spam patterns\<close>

text \<open>
  The regular expressions of the \<open>spam\<close> rule, each as a matcher at one position that
  returns the matched text, as the greedy backtracking matcher of JavaScript does:
  \<^item> \<open>RepeatedChars\<close> is \<^verbatim>\<open>/(.)\1{10,}/\<close>: a code unit that is not a line terminator,
    followed by ten or more copies of itself;
  \<^item> \<open>AllCaps\<close> is \<^verbatim>\<open>/[A-Z]{20,}/\<close>: twenty or more letters A to Z;
  \<^item> \<open>Url\<close> is \<^verbatim>\<open>/https?:\/\/[^\s]+/gi\<close>: \<open>http\<close> in any case, an optional \<open>s\<close>,
    \<open>://\<close>, and one or more code units that are not white space.
\<close>

datatype pattern = RepeatedChars | AllCaps | Url

definition is_line_terminator :: "char \<Rightarrow> bool" where
  "is_line_terminator c = (c = CHR 0x0A \<or> c = CHR 0x0D)"

definition is_upper_AZ :: "char \<Rightarrow> bool" where
  "is_upper_AZ c = (let n = (of_char c :: nat) in 65 \<le> n \<and> n \<le> 90)"

definition is_space :: "char \<Rightarrow> bool" where
  "is_space c = (c = CHR 0x09 \<or> c = CHR 0x0A \<or> c = CHR 0x0B \<or> c = CHR 0x0C
      \<or> c = CHR 0x0D \<or> c = CHR 0x20 \<or> c = CHR 0xA0)"

definition match_repeated_at :: "string \<Rightarrow> string option" where
  "match_repeated_at s =
     (case s of
        [] \<Rightarrow> None
      | c # rest \<Rightarrow>
          if is_line_terminator c then None
          else (let run = takeWhile (\<lambda>x. x = c) rest
                in if 10 \<le> length run then Some (c # run) else None))"

definition match_caps_at :: "string \<Rightarrow> string option" where
  "match_caps_at s =
     (let run = takeWhile is_upper_AZ s
      in if 20 \<le> length run then Some run else None)"

text \<open>What follows \<open>http\<close> or \<open>https\<close>: \<open>://\<close> and a non-empty run without white space.\<close>

definition match_url_tail :: "string \<Rightarrow> string option" where
  "match_url_tail s =
     (if startsWith s ''://''
      then (let body = takeWhile (\<lambda>c. \<not> is_space c) (drop 3 s)
            in if body = [] then None else Some (''://'' @ body))
      else None)"

definition match_url_at :: "string \<Rightarrow> string option" where
  "match_url_at s =
     (if toLowerCase (take 4 s) = ''http'' \<and> length s \<ge> 4
      then (let r = drop 4 s
            in case r of
                 [] \<Rightarrow> None
               | c # r' \<Rightarrow>
                   if c = CHR ''s'' \<or> c = CHR ''S''
                   then (case match_url_tail r' of
                           Some m \<Rightarrow> Some (take 4 s @ c # m)
                         | None \<Rightarrow> map_option (\<lambda>m. take 4 s @ m) (match_url_tail r))
                   else map_option (\<lambda>m. take 4 s @ m) (match_url_tail r))
      else None)"

fun match_at :: "pattern \<Rightarrow> string \<Rightarrow> string option" where
  "match_at RepeatedChars s = match_repeated_at s"
| "match_at AllCaps s = match_caps_at s"
| "match_at Url s = match_url_at s"

text \<open>The leftmost match: the matcher is tried at position 0, 1, 2, ...\<close>

fun exec_pattern :: "pattern \<Rightarrow> string \<Rightarrow> string option" where
  "exec_pattern p [] = match_at p []"
| "exec_pattern p (c # cs) =
     (case match_at p (c # cs) of Some m \<Rightarrow> Some m | None \<Rightarrow> exec_pattern p cs)"

text \<open>
  \<open>pattern.test(content)\<close> and \<open>content.match(pattern)?.[0]\<close>. The \<open>g\<close> flag of the
  third pattern makes \<open>test\<close> start at the regular expression's \<open>lastIndex\<close>; that
  index is 0 whenever the rule stage reaches the pattern, because a failed \<open>test\<close> resets
  it and the \<open>match\<close> that follows a successful \<open>test\<close> resets it too.
\<close>

definition test :: "pattern \<Rightarrow> string \<Rightarrow> bool" where
  "test p content = (exec_pattern p content \<noteq> None)"

definition first_match :: "pattern \<Rightarrow> string \<Rightarrow> string option" where
  "first_match p content = exec_pattern p content"

fun pattern_toString :: "pattern \<Rightarrow> string" where
  "pattern_toString RepeatedChars = ''/(.)'' @ [CHR 0x5C] @ ''1{10,}/''"
| "pattern_toString AllCaps = ''/[A-Z]{20,}/''"
| "pattern_toString Url =
     ''/https?:'' @ [CHR 0x5C] @ ''/'' @ [CHR 0x5C] @ ''/[^'' @ [CHR 0x5C] @ ''s]+/gi''"

section \<open>Moderation rules\<close>

text \<open>
  A rule category of \<open>moderationRules\<close>. A category without \<open>keywords\<close> (or without
  \<open>patterns\<close>) has the empty list: the loop over an absent list is not entered.
\<close>

record moderation_rule =
  rule_keywords :: "string list"
  rule_patterns :: "pattern list"
  rule_severity :: string
  rule_action :: string

text \<open>\<open>Object.entries(this.moderationRules)\<close>, in the order the constructor writes them.\<close>

definition moderationRules :: "(string \<times> moderation_rule) list" where
  "moderationRules =
     [(''crisis_detection'',
         \<lparr>rule_keywords =
            [''suicide'', ''kill myself'', ''end it all'', ''not worth living'',
             ''hurt myself'', ''self harm'', ''cutting'', ''overdose'',
             ''want to die'', ''better off dead'', ''can't take it anymore''],
          rule_patterns = [],
          rule_severity = ''critical'',
          rule_action = ''immediate_intervention''\<rparr>),
      (''harassment'',
         \<lparr>rule_keywords =
            [''hate'', ''kill you'', ''threat'', ''violence'', ''attack'',
             ''racist'', ''sexist'', ''homophobic'', ''transphobic''],
          rule_patterns = [],
          rule_severity = ''high'',
          rule_action = ''warn_and_monitor''\<rparr>),
      (''spam'',
         \<lparr>rule_keywords = [],
          rule_patterns = [RepeatedChars, AllCaps, Url],
          rule_severity = ''medium'',
          rule_action = ''auto_filter''\<rparr>),
      (''inappropriate_content'',
         \<lparr>rule_keywords = [''explicit'', ''sexual'', ''drug dealing'', ''illegal''],
          rule_patterns = [],
          rule_severity = ''medium'',
          rule_action = ''content_filter''\<rparr>)]"

text \<open>
  \<open>getSeverityLevel\<close>: the table \<open>{none: 0, low: 1, medium: 2, high: 3, critical: 4}\<close>,
  and 0 for every other string (\<open>levels[severity] || 0\<close>).
\<close>

definition getSeverityLevel :: "string \<Rightarrow> nat" where
  "getSeverityLevel severity =
     (if severity = ''none'' then 0
      else if severity = ''low'' then 1
      else if severity = ''medium'' then 2
      else if severity = ''high'' then 3
      else if severity = ''critical'' then 4
      else 0)"

section \<open>The rule stage\<close>

datatype flag =
    KeywordFlag string string int
  | PatternFlag string string "string option"
  | ClassifierFlag "(string \<times> string) list"

record rule_result =
  rb_flags :: "flag list"
  rb_severity :: string
  rb_action :: string
  rb_confidence :: rat
  rb_definitive :: bool

definition keyword_step ::
  "string \<Rightarrow> moderation_rule \<Rightarrow> string \<Rightarrow> rule_result \<Rightarrow> string \<Rightarrow> rule_result" where
  "keyword_step category rule lowerContent result keyword =
     (if includes_str lowerContent (toLowerCase keyword)
      then (let pushed = result\<lparr>rb_flags := rb_flags result @
                  [KeywordFlag category keyword (indexOf lowerContent (toLowerCase keyword))]\<rparr>
            in if getSeverityLevel (rule_severity rule) > getSeverityLevel (rb_severity pushed)
               then pushed\<lparr>rb_severity := rule_severity rule,
                           rb_action := rule_action rule,
                           rb_confidence := 8 / 10,
                           rb_definitive := (rule_severity rule = ''critical'')\<rparr>
               else pushed)
      else result)"

definition pattern_step ::
  "string \<Rightarrow> moderation_rule \<Rightarrow> string \<Rightarrow> rule_result \<Rightarrow> pattern \<Rightarrow> rule_result" where
  "pattern_step category rule content result p =
     (if test p content
      then (let pushed = result\<lparr>rb_flags := rb_flags result @
                  [PatternFlag category (pattern_toString p) (first_match p content)]\<rparr>
            in if getSeverityLevel (rule_severity rule) > getSeverityLevel (rb_severity pushed)
               then pushed\<lparr>rb_severity := rule_severity rule,
                           rb_action := rule_action rule,
                           rb_confidence := 7 / 10\<rparr>
               else pushed)
      else result)"

definition rule_step :: "string \<Rightarrow> rule_result \<Rightarrow> string \<times> moderation_rule \<Rightarrow> rule_result" where
  "rule_step content result entry =
     (case entry of (category, rule) \<Rightarrow>
        foldl (pattern_step category rule content)
          (foldl (keyword_step category rule (toLowerCase content)) result (rule_keywords rule))
          (rule_patterns rule))"

definition rule_result_init :: rule_result where
  "rule_result_init =
     \<lparr>rb_flags = [], rb_severity = ''none'', rb_action = ''none'',
      rb_confidence = 0, rb_definitive = False\<rparr>"

definition applyRuleBasedModeration_with ::
  "(string \<times> moderation_rule) list \<Rightarrow> string \<Rightarrow> rule_result" where
  "applyRuleBasedModeration_with rules content = foldl (rule_step content) rule_result_init rules"

definition applyRuleBasedModeration :: "string \<Rightarrow> rule_result" where
  "applyRuleBasedModeration content = applyRuleBasedModeration_with moderationRules content"

section \<open>The state store\<close>

text \<open>
  Values that travel through \<open>JSON.stringify\<close> and \<open>JSON.parse\<close>, which give back
  what was written. An object with free-form fields (a roster entry, the data of a join, a
  voice configuration) is a finite map from property names to values; \<open>{...a, ...b}\<close>
  is \<open>a ++ b\<close>. The other objects are records whose fields have the types the two
  services put there.
\<close>

datatype json = JNull | JBool bool | JNum int | JStr string

type_synonym obj = "string \<rightharpoonup> json"

text \<open>
  A session snapshot: the fields the store reads or writes, and the rest of the object.
  \<open>ss_participants = None\<close> is a snapshot without a \<open>participants\<close> array.
\<close>

record session_state =
  ss_participants :: "obj list option"
  ss_currentParticipants :: "nat option"
  ss_timestamp :: "nat option"
  ss_lastUpdated :: "string option"
  ss_rest :: obj

record voice_data =
  vc_fields :: obj
  vc_timestamp :: nat
  vc_sessionId :: string
  vc_participantId :: string

text \<open>
  \<open>aiAnalysis\<close> holds the classifier's \<open>details\<close>: normally a text, possibly an object.
\<close>

datatype details = DetailsText string | DetailsObject obj

record moderation_event =
  ev_type :: string
  ev_participantId :: "string option"
  ev_content :: string
  ev_severity :: string
  ev_flags :: "flag list"
  ev_action :: string
  ev_confidence :: rat
  ev_aiAnalysis :: "details option"

record moderation_log = moderation_event +
  ml_sessionId :: "string option"
  ml_timestamp :: nat
  ml_id :: string

record emergency_alert =
  al_type :: string
  al_participantId :: string
  al_content :: string
  al_severity :: "string option"
  al_autoResponse :: "json option"

record stored_alert =
  sa_type :: string
  sa_participantId :: string
  sa_content :: string
  sa_autoResponse :: "json option"
  sa_sessionId :: string
  sa_timestamp :: nat
  sa_id :: string
  sa_severity :: string

datatype payload =
    SessionData session_state
  | VoiceData voice_data
  | EventData moderation_log
  | AlertData stored_alert

datatype redis_cmd =
    SETEX string nat payload
  | GET string
  | LPUSH string string
  | EXPIRE string nat

text \<open>
  The networked backend: string keys with their TTL in seconds, list keys, the TTL set on
  list keys, the commands sent so far, and the outcome of the commands to come
  (\<open>True\<close>: the command rejects; past the end of the script every command succeeds).
\<close>

record redis =
  r_strings :: "string \<rightharpoonup> nat \<times> payload"
  r_lists :: "string \<rightharpoonup> string list"
  r_list_ttl :: "string \<rightharpoonup> nat"
  r_issued :: "redis_cmd list"
  r_faults :: "bool list"

fun redis_effect :: "redis_cmd \<Rightarrow> redis \<Rightarrow> redis" where
  "redis_effect (SETEX k ttl v) r = r\<lparr>r_strings := (r_strings r)(k \<mapsto> (ttl, v))\<rparr>"
| "redis_effect (GET k) r = r"
| "redis_effect (LPUSH k v) r =
     r\<lparr>r_lists := (r_lists r)(k \<mapsto> v # (case r_lists r k of None \<Rightarrow> [] | Some vs \<Rightarrow> vs))\<rparr>"
| "redis_effect (EXPIRE k ttl) r =
     (if k \<in> dom (r_lists r) then r\<lparr>r_list_ttl := (r_list_ttl r)(k \<mapsto> ttl)\<rparr> else r)"

text \<open>Sending one command: \<open>True\<close> and the effect, or \<open>False\<close> when it rejects.\<close>

definition redis_send :: "redis_cmd \<Rightarrow> redis \<Rightarrow> bool \<times> redis" where
  "redis_send cmd r =
     (let rejects = (case r_faults r of [] \<Rightarrow> False | f # _ \<Rightarrow> f);
          sent = r\<lparr>r_issued := r_issued r @ [cmd], r_faults := tl (r_faults r)\<rparr>
      in if rejects then (False, sent) else (True, redis_effect cmd sent))"

datatype emit_payload =
    CrisisAlert string string string string string
  | SystemMessage string json string
  | ModerationWarning string string string string
  | MessageFiltered string string string

datatype emission = Emit string string emit_payload

text \<open>
  Everything the two services read and write: \<open>this.redis\<close> (\<open>None\<close>: the in-process
  fallback), the fallback's globals, the console, the messages sent to the classifier,
  and the socket emissions (\<open>Emit room event payload\<close>).
\<close>

record world =
  w_redis :: "redis option"
  sessionStates :: "string \<rightharpoonup> session_state"
  voiceConfigs :: "string \<rightharpoonup> voice_data"
  moderationLogs :: "moderation_log list"
  emergencyAlerts :: "stored_alert list"
  console :: "string list"
  classifier_calls :: "string list"
  emitted :: "emission list"

text \<open>
  The clock during one call, read as one instant: what \<open>Date.now()\<close> and
  \<open>new Date().toISOString()\<close> return.
\<close>

record clock =
  now_ms :: nat
  now_iso :: string

text \<open>The decimal digits of a number, as a template literal prints it.\<close>

definition digit_char :: "nat \<Rightarrow> char" where
  "digit_char d = ''0123456789'' ! d"

fun digits_of :: "nat \<Rightarrow> string" where
  "digits_of n =
     (if n < 10 then [digit_char n]
      else digits_of (n div 10) @ [digit_char (n mod 10)])"

declare digits_of.simps [simp del]

definition console_error :: "string \<Rightarrow> world \<Rightarrow> world" where
  "console_error msg w = w\<lparr>console := console w @ [msg]\<rparr>"

text \<open>\<open>setSessionState\<close>: 24 hours on the backend, no expiry in the fallback.\<close>

definition setSessionState :: "string \<Rightarrow> session_state \<Rightarrow> clock \<Rightarrow> world \<Rightarrow> bool \<times> world" where
  "setSessionState sessionId state clk w =
     (case w_redis w of
        None \<Rightarrow>
          (True, w\<lparr>sessionStates :=
                     (sessionStates w)(sessionId \<mapsto> state\<lparr>ss_timestamp := Some (now_ms clk)\<rparr>)\<rparr>)
      | Some r \<Rightarrow>
          (let key = ''live_sanctuary:'' @ sessionId;
               data = state\<lparr>ss_timestamp := Some (now_ms clk),
                            ss_lastUpdated := Some (now_iso clk)\<rparr>
           in case redis_send (SETEX key 86400 (SessionData data)) r of
                (True, r1) \<Rightarrow> (True, w\<lparr>w_redis := Some r1\<rparr>)
              | (False, r1) \<Rightarrow>
                  (False, console_error ''Failed to set session state:'' (w\<lparr>w_redis := Some r1\<rparr>))))"

definition getSessionState :: "string \<Rightarrow> world \<Rightarrow> session_state option \<times> world" where
  "getSessionState sessionId w =
     (case w_redis w of
        None \<Rightarrow> (sessionStates w sessionId, w)
      | Some r \<Rightarrow>
          (let key = ''live_sanctuary:'' @ sessionId
           in case redis_send (GET key) r of
                (True, r1) \<Rightarrow>
                  ((case r_strings r1 key of
                      Some (ttl, SessionData s) \<Rightarrow> Some s
                    | _ \<Rightarrow> None),
                   w\<lparr>w_redis := Some r1\<rparr>)
              | (False, r1) \<Rightarrow>
                  (None, console_error ''Failed to get session state:'' (w\<lparr>w_redis := Some r1\<rparr>))))"

text \<open>\<open>Array.prototype.findIndex\<close>: the first index that satisfies the test.\<close>

fun findIndex :: "('a \<Rightarrow> bool) \<Rightarrow> 'a list \<Rightarrow> nat option" where
  "findIndex P [] = None"
| "findIndex P (x # xs) =
     (if P x then Some 0 else map_option Suc (findIndex P xs))"

definition has_id :: "string \<Rightarrow> obj \<Rightarrow> bool" where
  "has_id participantId p = (p ''id'' = Some (JStr participantId))"

text \<open>
  The roster step of \<open>updateParticipant\<close>: the entry found by identifier is merged with
  the data, \<open>{...participants[i], ...participantData}\<close>; without such an entry,
  \<open>{id: participantId, ...participantData}\<close> is pushed.
\<close>

definition update_or_add :: "string \<Rightarrow> obj \<Rightarrow> obj list \<Rightarrow> obj list" where
  "update_or_add participantId participantData participants =
     (case findIndex (has_id participantId) participants of
        Some i \<Rightarrow> participants[i := (participants ! i) ++ participantData]
      | None \<Rightarrow> participants @ [[''id'' \<mapsto> JStr participantId] ++ participantData])"

definition updateParticipant ::
  "string \<Rightarrow> string \<Rightarrow> obj \<Rightarrow> clock \<Rightarrow> world \<Rightarrow> bool \<times> world" where
  "updateParticipant sessionId participantId participantData clk w =
     (case getSessionState sessionId w of
        (None, w1) \<Rightarrow> (False, w1)
      | (Some sessionState, w1) \<Rightarrow>
          (let participants =
                 update_or_add participantId participantData
                   (case ss_participants sessionState of None \<Rightarrow> [] | Some ps \<Rightarrow> ps)
           in setSessionState sessionId
                (sessionState\<lparr>ss_participants := Some participants,
                              ss_currentParticipants := Some (length participants)\<rparr>) clk w1))"

definition removeParticipant :: "string \<Rightarrow> string \<Rightarrow> clock \<Rightarrow> world \<Rightarrow> bool \<times> world" where
  "removeParticipant sessionId participantId clk w =
     (case getSessionState sessionId w of
        (None, w1) \<Rightarrow> (False, w1)
      | (Some sessionState, w1) \<Rightarrow>
          (let participants =
                 filter (\<lambda>p. \<not> has_id participantId p)
                   (case ss_participants sessionState of None \<Rightarrow> [] | Some ps \<Rightarrow> ps)
           in setSessionState sessionId
                (sessionState\<lparr>ss_participants := Some participants,
                              ss_currentParticipants := Some (length participants)\<rparr>) clk w1))"

text \<open>\<open>setVoiceConfig\<close>: one hour on the backend.\<close>

definition setVoiceConfig ::
  "string \<Rightarrow> string \<Rightarrow> obj \<Rightarrow> clock \<Rightarrow> world \<Rightarrow> bool \<times> world" where
  "setVoiceConfig sessionId participantId voiceConfig clk w =
     (let key = ''voice_config:'' @ sessionId @ '':'' @ participantId;
          data = \<lparr>vc_fields = voiceConfig, vc_timestamp = now_ms clk,
                  vc_sessionId = sessionId, vc_participantId = participantId\<rparr>
      in case w_redis w of
           None \<Rightarrow> (True, w\<lparr>voiceConfigs := (voiceConfigs w)(key \<mapsto> data)\<rparr>)
         | Some r \<Rightarrow>
             (case redis_send (SETEX key 3600 (VoiceData data)) r of
                (True, r1) \<Rightarrow> (True, w\<lparr>w_redis := Some r1\<rparr>)
              | (False, r1) \<Rightarrow>
                  (False, console_error ''Failed to set voice config:'' (w\<lparr>w_redis := Some r1\<rparr>))))"

text \<open>A template literal prints an absent session identifier as \<open>undefined\<close>.\<close>

definition template_of :: "string option \<Rightarrow> string" where
  "template_of v = (case v of None \<Rightarrow> ''undefined'' | Some s \<Rightarrow> s)"

text \<open>
  \<open>RedisSessionManager.logModerationEvent\<close>: seven days on the entry and on the
  session's list of entries. The first command that rejects ends the call.
\<close>

definition moderation_key :: "string option \<Rightarrow> clock \<Rightarrow> string" where
  "moderation_key sessionId clk =
     ''moderation:'' @ template_of sessionId @ '':'' @ digits_of (now_ms clk)"

definition moderation_data :: "string option \<Rightarrow> moderation_event \<Rightarrow> clock \<Rightarrow> moderation_log" where
  "moderation_data sessionId event clk =
     moderation_event.extend event
       \<lparr>ml_sessionId = sessionId, ml_timestamp = now_ms clk,
        ml_id = moderation_key sessionId clk\<rparr>"

definition store_logModerationEvent ::
  "string option \<Rightarrow> moderation_event \<Rightarrow> clock \<Rightarrow> world \<Rightarrow> bool \<times> world" where
  "store_logModerationEvent sessionId event clk w =
     (let key = moderation_key sessionId clk;
          data = moderation_data sessionId event clk
      in case w_redis w of
           None \<Rightarrow> (True, w\<lparr>moderationLogs := moderationLogs w @ [data]\<rparr>)
         | Some r \<Rightarrow>
             (let listKey = ''moderation_list:'' @ template_of sessionId;
                  failed = (\<lambda>r'. (False, console_error ''Failed to log moderation event:''
                                            (w\<lparr>w_redis := Some r'\<rparr>)))
              in case redis_send (SETEX key 604800 (EventData data)) r of
                   (False, r1) \<Rightarrow> failed r1
                 | (True, r1) \<Rightarrow>
                     (case redis_send (LPUSH listKey key) r1 of
                        (False, r2) \<Rightarrow> failed r2
                      | (True, r2) \<Rightarrow>
                          (case redis_send (EXPIRE listKey 604800) r2 of
                             (False, r3) \<Rightarrow> failed r3
                           | (True, r3) \<Rightarrow> (True, w\<lparr>w_redis := Some r3\<rparr>)))))"

text \<open>\<open>alert.severity || 'high'\<close>: an absent or empty severity becomes \<open>high\<close>.\<close>

definition severity_or_high :: "string option \<Rightarrow> string" where
  "severity_or_high v = (case v of None \<Rightarrow> ''high'' | Some s \<Rightarrow> if s = [] then ''high'' else s)"

text \<open>
  \<open>storeEmergencyAlert\<close>: thirty days on the alert and on the session's list of alerts.
  There is one attempt: the first command that rejects is logged and ends the call.
\<close>

definition emergency_key :: "string \<Rightarrow> clock \<Rightarrow> string" where
  "emergency_key sessionId clk = ''emergency:'' @ sessionId @ '':'' @ digits_of (now_ms clk)"

definition emergency_data :: "string \<Rightarrow> emergency_alert \<Rightarrow> clock \<Rightarrow> stored_alert" where
  "emergency_data sessionId alert clk =
     \<lparr>sa_type = al_type alert, sa_participantId = al_participantId alert,
      sa_content = al_content alert, sa_autoResponse = al_autoResponse alert,
      sa_sessionId = sessionId, sa_timestamp = now_ms clk,
      sa_id = emergency_key sessionId clk,
      sa_severity = severity_or_high (al_severity alert)\<rparr>"

definition storeEmergencyAlert ::
  "string \<Rightarrow> emergency_alert \<Rightarrow> clock \<Rightarrow> world \<Rightarrow> bool \<times> world" where
  "storeEmergencyAlert sessionId alert clk w =
     (let key = emergency_key sessionId clk;
          data = emergency_data sessionId alert clk
      in case w_redis w of
           None \<Rightarrow> (True, w\<lparr>emergencyAlerts := emergencyAlerts w @ [data]\<rparr>)
         | Some r \<Rightarrow>
             (let listKey = ''emergency_list:'' @ sessionId;
                  failed = (\<lambda>r'. (False, console_error ''Failed to store emergency alert:''
                                            (w\<lparr>w_redis := Some r'\<rparr>)))
              in case redis_send (SETEX key 2592000 (AlertData data)) r of
                   (False, r1) \<Rightarrow> failed r1
                 | (True, r1) \<Rightarrow>
                     (case redis_send (LPUSH listKey key) r1 of
                        (False, r2) \<Rightarrow> failed r2
                      | (True, r2) \<Rightarrow>
                          (case redis_send (EXPIRE listKey 2592000) r2 of
                             (False, r3) \<Rightarrow> failed r3
                           | (True, r3) \<Rightarrow> (True, w\<lparr>w_redis := Some r3\<rparr>)))))"

section \<open>The classifier stage\<close>

text \<open>
  The \<open>flags\<close> property of the classifier's answer: absent, an array, or a value that
  cannot be spread into \<open>push\<close> (a number, a boolean, an object).
\<close>

datatype flags_field = FlagsAbsent | FlagsArray "flag list" | FlagsNotIterable

text \<open>The object \<open>JSON.parse\<close> returns; \<open>None\<close> is an absent (or null) property.\<close>

record classifier_response =
  resp_severity :: "string option"
  resp_flags :: flags_field
  resp_action :: "string option"
  resp_confidence :: "rat option"
  resp_supportive_response :: "string option"
  resp_details :: "details option"

text \<open>
  What the external call does for a message: it rejects, or its text is not JSON
  (\<open>ClassifierFailed\<close>), or the text parses to an object.
\<close>

datatype classifier_outcome = ClassifierFailed | ClassifierParsed classifier_response

datatype flags_value = Flags "flag list" | NotIterable

record ai_result =
  ai_severity :: string
  ai_flags :: flags_value
  ai_action :: string
  ai_confidence :: rat
  ai_supportiveResponse :: "string option"
  ai_details :: "details option"
  ai_error :: "string option"

text \<open>\<open>x || 'none'\<close> on a string property: absent and empty give \<open>none\<close>.\<close>

definition or_none :: "string option \<Rightarrow> string" where
  "or_none v = (case v of None \<Rightarrow> ''none'' | Some s \<Rightarrow> if s = [] then ''none'' else s)"

definition performAIAnalysis ::
  "(string \<Rightarrow> classifier_outcome) \<Rightarrow> string \<Rightarrow> world \<Rightarrow> ai_result \<times> world" where
  "performAIAnalysis classifier content w =
     (let w1 = w\<lparr>classifier_calls := classifier_calls w @ [content]\<rparr>
      in case classifier content of
           ClassifierParsed analysis \<Rightarrow>
             (\<lparr>ai_severity = or_none (resp_severity analysis),
               ai_flags = (case resp_flags analysis of
                             FlagsAbsent \<Rightarrow> Flags []
                           | FlagsArray fs \<Rightarrow> Flags fs
                           | FlagsNotIterable \<Rightarrow> NotIterable),
               ai_action = or_none (resp_action analysis),
               ai_confidence = (case resp_confidence analysis of None \<Rightarrow> 0 | Some c \<Rightarrow> c),
               ai_supportiveResponse = resp_supportive_response analysis,
               ai_details = resp_details analysis,
               ai_error = None\<rparr>, w1)
         | ClassifierFailed \<Rightarrow>
             (\<lparr>ai_severity = ''none'', ai_flags = Flags [], ai_action = ''none'',
               ai_confidence = 0, ai_supportiveResponse = None, ai_details = None,
               ai_error = Some ''AI analysis unavailable''\<rparr>,
              console_error ''AI analysis failed:'' w1))"

section \<open>The moderation pipeline\<close>

record call_context =
  ctx_sessionId :: "string option"
  ctx_participantId :: "string option"

record analysis =
  a_content :: string
  a_timestamp :: "string option"
  a_severity :: string
  a_flags :: "flag list"
  a_action :: string
  a_confidence :: rat
  a_sessionId :: "string option"
  a_participantId :: "string option"
  a_aiAnalysis :: "details option"
  a_error :: "string option"

text \<open>\<open>AIModerationService.logModerationEvent\<close>: the store's result is not looked at.\<close>

definition logModerationEvent :: "analysis \<Rightarrow> clock \<Rightarrow> world \<Rightarrow> world" where
  "logModerationEvent a clk w =
     snd (store_logModerationEvent (a_sessionId a)
            \<lparr>ev_type = ''content_analysis'',
             ev_participantId = a_participantId a,
             ev_content = a_content a,
             ev_severity = a_severity a,
             ev_flags = a_flags a,
             ev_action = a_action a,
             ev_confidence = a_confidence a,
             ev_aiAnalysis = a_aiAnalysis a\<rparr> clk w)"

text \<open>The verdict of the \<open>catch\<close> branch of \<open>analyzeContent\<close>.\<close>

definition error_verdict :: "string \<Rightarrow> string \<Rightarrow> analysis" where
  "error_verdict content message =
     \<lparr>a_content = content, a_timestamp = None, a_severity = ''none'', a_flags = [],
      a_action = ''none'', a_confidence = 0, a_sessionId = None, a_participantId = None,
      a_aiAnalysis = None, a_error = Some message\<rparr>"

definition needs_ai :: "string \<Rightarrow> rule_result \<Rightarrow> bool" where
  "needs_ai content ruleBasedResult = (length content > 10 \<and> \<not> rb_definitive ruleBasedResult)"

text \<open>The three steps of \<open>analyzeContent\<close> on the verdict under construction.\<close>

definition initial_analysis :: "string \<Rightarrow> call_context \<Rightarrow> clock \<Rightarrow> analysis" where
  "initial_analysis content ctx clk =
     \<lparr>a_content = content, a_timestamp = Some (now_iso clk), a_severity = ''none'',
      a_flags = [], a_action = ''none'', a_confidence = 0,
      a_sessionId = ctx_sessionId ctx, a_participantId = ctx_participantId ctx,
      a_aiAnalysis = None, a_error = None\<rparr>"

definition take_rule_result :: "analysis \<Rightarrow> rule_result \<Rightarrow> analysis" where
  "take_rule_result a ruleBasedResult =
     (let pushed = a\<lparr>a_flags := a_flags a @ rb_flags ruleBasedResult\<rparr>
      in if rb_severity ruleBasedResult \<noteq> ''none''
         then pushed\<lparr>a_severity := rb_severity ruleBasedResult,
                      a_action := rb_action ruleBasedResult,
                      a_confidence := rb_confidence ruleBasedResult\<rparr>
         else pushed)"

definition take_higher_severity :: "analysis \<Rightarrow> ai_result \<Rightarrow> analysis" where
  "take_higher_severity a aiResult =
     (if getSeverityLevel (ai_severity aiResult) > getSeverityLevel (a_severity a)
      then a\<lparr>a_severity := ai_severity aiResult,
             a_action := ai_action aiResult,
             a_confidence := max (a_confidence a) (ai_confidence aiResult)\<rparr>
      else a)"

definition analyzeContent ::
  "(string \<Rightarrow> classifier_outcome) \<Rightarrow> string \<Rightarrow> call_context \<Rightarrow> clock \<Rightarrow> world
     \<Rightarrow> analysis \<times> world" where
  "analyzeContent classifier content ctx clk w =
     (let ruleBasedResult = applyRuleBasedModeration content;
          ruled = take_rule_result (initial_analysis content ctx clk) ruleBasedResult
      in if needs_ai content ruleBasedResult
         then (case performAIAnalysis classifier content w of
                 (aiResult, w1) \<Rightarrow>
                   (let combined = take_higher_severity ruled aiResult
                    in case ai_flags aiResult of
                         NotIterable \<Rightarrow>
                           (error_verdict content ''aiResult.flags is not iterable'',
                            console_error ''Content analysis failed:'' w1)
                       | Flags fs \<Rightarrow>
                           (let merged = combined\<lparr>a_flags := a_flags combined @ fs,
                                                   a_aiAnalysis := ai_details aiResult\<rparr>
                            in (merged, logModerationEvent merged clk w1))))
         else (ruled, logModerationEvent ruled clk w))"

section \<open>Escalation\<close>

text \<open>
  An entry of \<open>emergencyProtocols\<close>; a switch the entry does not carry reads as false.
\<close>

record protocol =
  notify_moderators :: bool
  emergency_contact :: bool
  session_pause :: bool
  escalate_to_admin :: bool
  auto_response :: "string option"
  auto_warning :: bool
  increase_monitoring :: bool
  strike_system :: bool
  block_message :: bool
  warn_user :: bool
  log_incident :: bool

definition no_switches :: protocol where
  "no_switches =
     \<lparr>notify_moderators = False, emergency_contact = False, session_pause = False,
      escalate_to_admin = False, auto_response = None, auto_warning = False,
      increase_monitoring = False, strike_system = False, block_message = False,
      warn_user = False, log_incident = False\<rparr>"

definition emergencyProtocols :: "string \<Rightarrow> protocol option" where
  "emergencyProtocols name =
     (if name = ''immediate_intervention''
      then Some (no_switches\<lparr>notify_moderators := True, emergency_contact := True,
                   session_pause := False, escalate_to_admin := True,
                   auto_response := Some (''I'm concerned about what you've shared. ''
                     @ ''You're not alone, and help is available. ''
                     @ ''A trained moderator will join shortly.'')\<rparr>)
      else if name = ''warn_and_monitor''
      then Some (no_switches\<lparr>notify_moderators := True, auto_warning := True,
                   increase_monitoring := True, strike_system := True\<rparr>)
      else if name = ''auto_filter''
      then Some (no_switches\<lparr>block_message := True, warn_user := True, log_incident := True\<rparr>)
      else None)"

text \<open>\<open>analysis.aiAnalysis?.supportiveResponse\<close>: a property of an object only.\<close>

definition supportiveResponse_of :: "details option \<Rightarrow> json option" where
  "supportiveResponse_of d =
     (case d of Some (DetailsObject m) \<Rightarrow> m ''supportiveResponse'' | _ \<Rightarrow> None)"

fun truthy :: "json \<Rightarrow> bool" where
  "truthy JNull = False"
| "truthy (JBool b) = b"
| "truthy (JNum n) = (n \<noteq> 0)"
| "truthy (JStr s) = (s \<noteq> [])"

definition emit :: "string \<Rightarrow> string \<Rightarrow> emit_payload \<Rightarrow> world \<Rightarrow> world" where
  "emit room event p w = w\<lparr>emitted := emitted w @ [Emit room event p]\<rparr>"

record action_results =
  ar_action :: string
  ar_executed :: "string list"
  ar_timestamp :: string

text \<open>The three blocks of \<open>executeModerationAction\<close>, in the order of the source.\<close>

text \<open>The alert \<open>executeModerationAction\<close> hands to \<open>storeEmergencyAlert\<close>.\<close>

definition crisis_alert :: "analysis \<Rightarrow> string \<Rightarrow> emergency_alert" where
  "crisis_alert a participantId =
     \<lparr>al_type = ''crisis_intervention'',
      al_participantId = participantId,
      al_content = a_content a,
      al_severity = Some ''critical'',
      al_autoResponse = supportiveResponse_of (a_aiAnalysis a)\<rparr>"

definition intervention_block ::
  "protocol \<Rightarrow> analysis \<Rightarrow> string \<Rightarrow> string \<Rightarrow> clock \<Rightarrow> string list \<times> world
     \<Rightarrow> string list \<times> world" where
  "intervention_block proto a sessionId participantId clk st =
     (if a_action a = ''immediate_intervention''
      then (let st1 =
                  (if notify_moderators proto
                   then (fst st @ [''moderator_notification''],
                         emit ''moderators'' ''crisis_alert''
                           (CrisisAlert sessionId participantId (a_content a) (a_severity a)
                              (now_iso clk)) (snd st))
                   else st);
                st2 =
                  (case supportiveResponse_of (a_aiAnalysis a) of
                     None \<Rightarrow> st1
                   | Some message \<Rightarrow>
                       if truthy message
                       then (fst st1 @ [''supportive_response''],
                             emit (''sanctuary_'' @ sessionId) ''system_message''
                               (SystemMessage ''support'' message (now_iso clk)) (snd st1))
                       else st1);
                stored = storeEmergencyAlert sessionId (crisis_alert a participantId)
                           clk (snd st2)
            in (fst st2 @ [''emergency_alert_logged''], snd stored))
      else st)"

definition warning_block ::
  "protocol \<Rightarrow> analysis \<Rightarrow> string \<Rightarrow> string \<Rightarrow> clock \<Rightarrow> string list \<times> world
     \<Rightarrow> string list \<times> world" where
  "warning_block proto a sessionId participantId clk st =
     (if a_action a = ''warn_and_monitor'' \<and> auto_warning proto
      then (fst st @ [''warning_sent''],
            emit (''sanctuary_'' @ sessionId) ''moderation_warning''
              (ModerationWarning participantId ''content_warning''
                 (''Please keep the conversation supportive and appropriate ''
                    @ ''for all participants.'') (now_iso clk)) (snd st))
      else st)"

definition filter_block ::
  "protocol \<Rightarrow> analysis \<Rightarrow> string \<Rightarrow> string \<Rightarrow> clock \<Rightarrow> string list \<times> world
     \<Rightarrow> string list \<times> world" where
  "filter_block proto a sessionId participantId clk st =
     (if a_action a = ''auto_filter'' \<and> block_message proto
      then (fst st @ [''message_blocked''],
            emit (''sanctuary_'' @ sessionId) ''message_filtered''
              (MessageFiltered participantId ''Content filtered by automated moderation''
                 (now_iso clk)) (snd st))
      else st)"

definition executeModerationAction ::
  "analysis \<Rightarrow> string \<Rightarrow> string \<Rightarrow> clock \<Rightarrow> world \<Rightarrow> action_results option \<times> world" where
  "executeModerationAction a sessionId participantId clk w =
     (case emergencyProtocols (a_action a) of
        None \<Rightarrow> (None, w)
      | Some proto \<Rightarrow>
          (let st = filter_block proto a sessionId participantId clk
                      (warning_block proto a sessionId participantId clk
                         (intervention_block proto a sessionId participantId clk ([], w)))
           in (Some \<lparr>ar_action = a_action a, ar_executed = fst st,
                      ar_timestamp = now_iso clk\<rparr>, snd st)))"

section \<open>Notions used to state the properties\<close>

text \<open>A rule matches a message when one of its keywords or one of its patterns does.\<close>

definition rule_matches :: "string \<Rightarrow> moderation_rule \<Rightarrow> bool" where
  "rule_matches content rule =
     ((\<exists>keyword \<in> set (rule_keywords rule).
          includes_str (toLowerCase content) (toLowerCase keyword))
      \<or> (\<exists>p \<in> set (rule_patterns rule). test p content))"

definition matched_rules :: "(string \<times> moderation_rule) list \<Rightarrow> string \<Rightarrow> moderation_rule list" where
  "matched_rules rules content = filter (rule_matches content) (map snd rules)"

text \<open>The greatest level in a list of severities, 0 (\<open>none\<close>) for the empty list.\<close>

definition highest_level :: "string list \<Rightarrow> nat" where
  "highest_level severities = foldr max (map getSeverityLevel severities) 0"

text \<open>The verdict made of the rule-stage result alone.\<close>

definition rule_verdict :: "string \<Rightarrow> call_context \<Rightarrow> clock \<Rightarrow> analysis" where
  "rule_verdict content ctx clk =
     \<lparr>a_content = content, a_timestamp = Some (now_iso clk),
      a_severity = rb_severity (applyRuleBasedModeration content),
      a_flags = rb_flags (applyRuleBasedModeration content),
      a_action = rb_action (applyRuleBasedModeration content),
      a_confidence = rb_confidence (applyRuleBasedModeration content),
      a_sessionId = ctx_sessionId ctx, a_participantId = ctx_participantId ctx,
      a_aiAnalysis = None, a_error = None\<rparr>"

text \<open>
  A rule-stage result that still has severity \<open>none\<close> has the initial action and
  confidence.
\<close>

definition none_untouched :: "rule_result \<Rightarrow> bool" where
  "none_untouched r =
     (rb_severity r = ''none'' \<longrightarrow> rb_action r = ''none'' \<and> rb_confidence r = 0)"

text \<open>A classifier that answers every message with a low severity and high confidence.\<close>

definition lenient_classifier :: "string \<Rightarrow> classifier_outcome" where
  "lenient_classifier content =
     ClassifierParsed \<lparr>resp_severity = Some ''low'', resp_flags = FlagsArray [],
       resp_action = Some ''monitor'', resp_confidence = Some (19 / 20),
       resp_supportive_response = None, resp_details = Some (DetailsText ''mild'')\<rparr>"

text \<open>The snapshot a session has in the store, read without sending a command.\<close>

definition stored_session :: "world \<Rightarrow> string \<Rightarrow> session_state option" where
  "stored_session w sessionId =
     (case w_redis w of
        None \<Rightarrow> sessionStates w sessionId
      | Some r \<Rightarrow>
          (case r_strings r (''live_sanctuary:'' @ sessionId) of
             Some (ttl, SessionData s) \<Rightarrow> Some s
           | _ \<Rightarrow> None))"

definition roster :: "session_state \<Rightarrow> obj list" where
  "roster s = (case ss_participants s of None \<Rightarrow> [] | Some ps \<Rightarrow> ps)"

text \<open>
  \<open>currentParticipants\<close> equals the length of \<open>participants\<close> in the stored snapshot
  of a session; a session without a stored snapshot has nothing to compare.
\<close>

definition roster_counted :: "world \<Rightarrow> string \<Rightarrow> bool" where
  "roster_counted w sessionId =
     (case stored_session w sessionId of
        None \<Rightarrow> True
      | Some s \<Rightarrow>
          (case ss_participants s of
             None \<Rightarrow> False
           | Some ps \<Rightarrow> ss_currentParticipants s = Some (length ps)))"

datatype roster_op =
    Join string string obj clock
  | Leave string string clock

fun apply_roster_op :: "roster_op \<Rightarrow> world \<Rightarrow> bool \<times> world" where
  "apply_roster_op (Join sessionId participantId participantData clk) w =
     updateParticipant sessionId participantId participantData clk w"
| "apply_roster_op (Leave sessionId participantId clk) w =
     removeParticipant sessionId participantId clk w"

fun run_roster_ops :: "roster_op list \<Rightarrow> world \<Rightarrow> world" where
  "run_roster_ops [] w = w"
| "run_roster_ops (op # ops) w = run_roster_ops ops (snd (apply_roster_op op w))"

fun op_session :: "roster_op \<Rightarrow> string" where
  "op_session (Join sessionId participantId participantData clk) = sessionId"
| "op_session (Leave sessionId participantId clk) = sessionId"

text \<open>The roster a session has in the store; empty when the session has no snapshot.\<close>

definition stored_roster :: "world \<Rightarrow> string \<Rightarrow> obj list" where
  "stored_roster w sessionId =
     (case stored_session w sessionId of None \<Rightarrow> [] | Some s \<Rightarrow> roster s)"

text \<open>
  The data of a join keeps the identifier: it has no \<open>id\<close> property, or the
  participant's own identifier.
\<close>

definition keeps_id :: "string \<Rightarrow> obj \<Rightarrow> bool" where
  "keeps_id participantId participantData =
     (participantData ''id'' = None \<or> participantData ''id'' = Some (JStr participantId))"

text \<open>A join of the given participant to the given session, with data that keeps the identifier.\<close>

fun is_join_of :: "string \<Rightarrow> string \<Rightarrow> roster_op \<Rightarrow> bool" where
  "is_join_of sessionId participantId (Join s p participantData clk) =
     (s = sessionId \<and> p = participantId \<and> keeps_id participantId participantData)"
| "is_join_of sessionId participantId (Leave s p clk) = False"

text \<open>How many roster entries carry a given identifier.\<close>

definition id_count :: "string \<Rightarrow> obj list \<Rightarrow> nat" where
  "id_count participantId ps = length (filter (has_id participantId) ps)"

text \<open>
  What the backend holds under a string key, and whether the backend is connected and
  accepts the next \<open>n\<close> commands.
\<close>

definition backend_entry :: "world \<Rightarrow> string \<Rightarrow> (nat \<times> payload) option" where
  "backend_entry w key = (case w_redis w of None \<Rightarrow> None | Some r \<Rightarrow> r_strings r key)"

definition backend_accepts :: "nat \<Rightarrow> world \<Rightarrow> bool" where
  "backend_accepts n w =
     (case w_redis w of None \<Rightarrow> False | Some r \<Rightarrow> True \<notin> set (take n (r_faults r)))"

definition backend_rejects_next :: "world \<Rightarrow> bool" where
  "backend_rejects_next w =
     (case w_redis w of None \<Rightarrow> False | Some r \<Rightarrow> take 1 (r_faults r) = [True])"

definition crisis_message :: string where
  "crisis_message = ''I want to kill myself''"

text \<open>The commands a call has sent, and the TTLs those commands carry.\<close>

definition sent_by :: "world \<Rightarrow> world \<Rightarrow> redis_cmd list" where
  "sent_by w w' =
     (case (w_redis w, w_redis w') of
        (Some r, Some r') \<Rightarrow> drop (length (r_issued r)) (r_issued r')
      | _ \<Rightarrow> [])"

fun ttl_of :: "redis_cmd \<Rightarrow> nat option" where
  "ttl_of (SETEX k ttl v) = Some ttl"
| "ttl_of (EXPIRE k ttl) = Some ttl"
| "ttl_of (GET k) = None"
| "ttl_of (LPUSH k v) = None"

definition ttls_sent :: "world \<Rightarrow> world \<Rightarrow> nat list" where
  "ttls_sent w w' = List.map_filter ttl_of (sent_by w w')"

fun is_alert_write :: "redis_cmd \<Rightarrow> bool" where
  "is_alert_write (SETEX k ttl (AlertData d)) = True"
| "is_alert_write c = False"

fun is_event_write :: "redis_cmd \<Rightarrow> bool" where
  "is_event_write (SETEX k ttl (EventData d)) = True"
| "is_event_write c = False"

text \<open>The moderation event that records a verdict.\<close>

definition event_of :: "analysis \<Rightarrow> moderation_event" where
  "event_of a =
     \<lparr>ev_type = ''content_analysis'', ev_participantId = a_participantId a,
      ev_content = a_content a, ev_severity = a_severity a, ev_flags = a_flags a,
      ev_action = a_action a, ev_confidence = a_confidence a,
      ev_aiAnalysis = a_aiAnalysis a\<rparr>"

text \<open>A verdict is persisted when the store holds a moderation entry made from it.\<close>

definition persisted :: "analysis \<Rightarrow> world \<Rightarrow> bool" where
  "persisted a w =
     (case w_redis w of
        None \<Rightarrow> \<exists>entry \<in> set (moderationLogs w). moderation_event.truncate entry = event_of a
      | Some r \<Rightarrow>
          \<exists>c \<in> set (r_issued r).
            (case c of
               SETEX k ttl (EventData d) \<Rightarrow>
                 moderation_event.truncate d = event_of a
                 \<and> r_strings r k = Some (ttl, EventData d)
             | _ \<Rightarrow> False))"

text \<open>Worlds and a clock to run the services on.\<close>

definition memory_world :: world where
  "memory_world =
     \<lparr>w_redis = None, sessionStates = Map.empty, voiceConfigs = Map.empty,
      moderationLogs = [], emergencyAlerts = [], console = [], classifier_calls = [],
      emitted = []\<rparr>"

definition backend_world :: "bool list \<Rightarrow> world" where
  "backend_world script =
     memory_world\<lparr>w_redis := Some \<lparr>r_strings = Map.empty, r_lists = Map.empty,
                                    r_list_ttl = Map.empty, r_issued = [],
                                    r_faults = script\<rparr>\<rparr>"

definition some_clock :: clock where
  "some_clock = \<lparr>now_ms = 42, now_iso = ''2024-05-01T10:00:00.000Z''\<rparr>"

definition some_session :: session_state where
  "some_session =
     \<lparr>ss_participants = Some [], ss_currentParticipants = Some 0, ss_timestamp = None,
      ss_lastUpdated = None, ss_rest = Map.empty\<rparr>"

text \<open>A classifier whose answer has a \<open>flags\<close> property that is not a list.\<close>

definition malformed_classifier :: "string \<Rightarrow> classifier_outcome" where
  "malformed_classifier content =
     ClassifierParsed \<lparr>resp_severity = Some ''high'', resp_flags = FlagsNotIterable,
       resp_action = Some ''warn'', resp_confidence = Some (9 / 10),
       resp_supportive_response = None, resp_details = None\<rparr>"

text \<open>A fallback world with one session, and roster operations on it.\<close>

definition lobby_world :: world where
  "lobby_world = memory_world\<lparr>sessionStates := [''s1'' \<mapsto> some_session]\<rparr>"

definition join_p1 :: "string \<Rightarrow> roster_op" where
  "join_p1 alias = Join ''s1'' ''p1'' [''alias'' \<mapsto> JStr alias] some_clock"

definition join_b_as_a :: roster_op where
  "join_b_as_a = Join ''s1'' ''b'' [''id'' \<mapsto> JStr ''a''] some_clock"

definition some_context :: call_context where
  "some_context = \<lparr>ctx_sessionId = Some ''s1'', ctx_participantId = Some ''p1''\<rparr>"

text \<open>The invariant of the rule stage that ties \<open>definitive\<close> to the severity.\<close>

definition definitive_iff_critical :: "rule_result \<Rightarrow> bool" where
  "definitive_iff_critical r = (rb_definitive r \<longleftrightarrow> rb_severity r = ''critical'')"

section \<open>The rule stage computes a maximum\<close>

lemma level_le_4: "getSeverityLevel s \<le> 4"
  by (simp add: getSeverityLevel_def)

lemma level_4_iff: "getSeverityLevel s = 4 \<longleftrightarrow> s = ''critical''"
  by (simp add: getSeverityLevel_def)

lemma keyword_step_level:
  "getSeverityLevel (rb_severity (keyword_step cat rule lc r kw)) =
     (if includes_str lc (toLowerCase kw)
      then max (getSeverityLevel (rb_severity r)) (getSeverityLevel (rule_severity rule))
      else getSeverityLevel (rb_severity r))"
  by (simp add: keyword_step_def Let_def)

lemma keywords_level:
  "getSeverityLevel (rb_severity (foldl (keyword_step cat rule lc) r kws)) =
     (if \<exists>kw \<in> set kws. includes_str lc (toLowerCase kw)
      then max (getSeverityLevel (rb_severity r)) (getSeverityLevel (rule_severity rule))
      else getSeverityLevel (rb_severity r))"
  by (induction kws arbitrary: r) (auto simp: keyword_step_level)

lemma pattern_step_level:
  "getSeverityLevel (rb_severity (pattern_step cat rule c r p)) =
     (if test p c
      then max (getSeverityLevel (rb_severity r)) (getSeverityLevel (rule_severity rule))
      else getSeverityLevel (rb_severity r))"
  by (simp add: pattern_step_def Let_def)

lemma patterns_level:
  "getSeverityLevel (rb_severity (foldl (pattern_step cat rule c) r ps)) =
     (if \<exists>p \<in> set ps. test p c
      then max (getSeverityLevel (rb_severity r)) (getSeverityLevel (rule_severity rule))
      else getSeverityLevel (rb_severity r))"
  by (induction ps arbitrary: r) (auto simp: pattern_step_level)

lemma rule_step_level:
  "getSeverityLevel (rb_severity (rule_step c r (cat, rule))) =
     (if rule_matches c rule
      then max (getSeverityLevel (rb_severity r)) (getSeverityLevel (rule_severity rule))
      else getSeverityLevel (rb_severity r))"
  by (auto simp: rule_step_def rule_matches_def patterns_level keywords_level)

lemma rules_level:
  "getSeverityLevel (rb_severity (foldl (rule_step c) r rules)) =
     max (getSeverityLevel (rb_severity r))
         (highest_level (map rule_severity (matched_rules rules c)))"
proof (induction rules arbitrary: r)
  case Nil
  then show ?case by (simp add: highest_level_def matched_rules_def)
next
  case (Cons e rules)
  obtain cat rule where e: "e = (cat, rule)" by (cases e)
  show ?case
    using Cons.IH [of "rule_step c r (cat, rule)"]
    by (auto simp: e rule_step_level highest_level_def matched_rules_def max.assoc)
qed



lemma keyword_step_definitive:
  "definitive_iff_critical r \<Longrightarrow> definitive_iff_critical (keyword_step cat rule lc r kw)"
  by (simp add: keyword_step_def Let_def definitive_iff_critical_def)

lemma keywords_definitive:
  "definitive_iff_critical r \<Longrightarrow>
   definitive_iff_critical (foldl (keyword_step cat rule lc) r kws)"
  by (induction kws arbitrary: r) (simp_all add: keyword_step_definitive)

lemma pattern_step_definitive:
  assumes "definitive_iff_critical r" and "rule_severity rule \<noteq> ''critical''"
  shows "definitive_iff_critical (pattern_step cat rule c r p)"
proof -
  have "\<not> getSeverityLevel (rule_severity rule) > getSeverityLevel ''critical''"
    using level_le_4 [of "rule_severity rule"] by (simp add: getSeverityLevel_def)
  then show ?thesis
    using assms by (auto simp: pattern_step_def Let_def definitive_iff_critical_def)
qed

lemma patterns_definitive:
  "definitive_iff_critical r \<Longrightarrow> rule_severity rule \<noteq> ''critical'' \<Longrightarrow>
   definitive_iff_critical (foldl (pattern_step cat rule c) r ps)"
  by (induction ps arbitrary: r) (simp_all add: pattern_step_definitive)

lemma rule_step_definitive:
  assumes "definitive_iff_critical r"
    and "rule_patterns rule = [] \<or> rule_severity rule \<noteq> ''critical''"
  shows "definitive_iff_critical (rule_step c r (cat, rule))"
  using assms
  by (auto simp: rule_step_def keywords_definitive patterns_definitive)

lemma rules_definitive:
  assumes "definitive_iff_critical r"
    and "\<forall>e \<in> set rules. rule_patterns (snd e) = [] \<or> rule_severity (snd e) \<noteq> ''critical''"
  shows "definitive_iff_critical (foldl (rule_step c) r rules)"
  using assms
proof (induction rules arbitrary: r)
  case Nil
  then show ?case by simp
next
  case (Cons e rules)
  obtain cat rule where e: "e = (cat, rule)" by (cases e)
  have "definitive_iff_critical (rule_step c r (cat, rule))"
    using Cons.prems by (intro rule_step_definitive) (auto simp: e)
  then show ?case using Cons by (simp add: e)
qed

lemma moderationRules_patterns_not_critical:
  "\<forall>e \<in> set moderationRules. rule_patterns (snd e) = [] \<or> rule_severity (snd e) \<noteq> ''critical''"
  by (simp add: moderationRules_def)

lemma applyRuleBasedModeration_definitive:
  "rb_definitive (applyRuleBasedModeration c)
     \<longleftrightarrow> rb_severity (applyRuleBasedModeration c) = ''critical''"
proof -
  have "definitive_iff_critical rule_result_init"
    by (simp add: definitive_iff_critical_def rule_result_init_def)
  then have "definitive_iff_critical (applyRuleBasedModeration c)"
    unfolding applyRuleBasedModeration_def applyRuleBasedModeration_with_def
    by (rule rules_definitive) (rule moderationRules_patterns_not_critical)
  then show ?thesis by (simp add: definitive_iff_critical_def)
qed

lemma applyRuleBasedModeration_level:
  "getSeverityLevel (rb_severity (applyRuleBasedModeration c)) =
     highest_level (map rule_severity (matched_rules moderationRules c))"
proof -
  have "getSeverityLevel (rb_severity rule_result_init) = 0"
    by (simp add: rule_result_init_def getSeverityLevel_def)
  then show ?thesis
    unfolding applyRuleBasedModeration_def applyRuleBasedModeration_with_def
    by (simp only: rules_level max_0L)
qed

lemma highest_level_4:
  "highest_level ss = 4 \<longleftrightarrow> ''critical'' \<in> set ss"
proof (induction ss)
  case Nil
  then show ?case by (simp add: highest_level_def)
next
  case (Cons s ss)
  have "max (getSeverityLevel s) (highest_level ss) = 4
          \<longleftrightarrow> getSeverityLevel s = 4 \<or> highest_level ss = 4"
  proof -
    have "highest_level ss \<le> 4"
      by (induction ss) (simp_all add: highest_level_def level_le_4)
    then show ?thesis using level_le_4 [of s] by (auto simp: max_def)
  qed
  then show ?case using Cons by (auto simp: highest_level_def level_4_iff)
qed


lemma keyword_step_severity_mem:
  "rb_severity (keyword_step cat rule lc r kw) = rb_severity r
   \<or> (includes_str lc (toLowerCase kw)
        \<and> rb_severity (keyword_step cat rule lc r kw) = rule_severity rule)"
  by (simp add: keyword_step_def Let_def)

lemma keywords_severity_mem:
  "rb_severity (foldl (keyword_step cat rule lc) r kws) = rb_severity r
   \<or> ((\<exists>kw \<in> set kws. includes_str lc (toLowerCase kw))
        \<and> rb_severity (foldl (keyword_step cat rule lc) r kws) = rule_severity rule)"
proof (induction kws arbitrary: r)
  case Nil
  then show ?case by simp
next
  case (Cons kw kws)
  show ?case
    using Cons.IH [of "keyword_step cat rule lc r kw"] keyword_step_severity_mem [of cat rule lc r kw]
    by auto
qed

lemma pattern_step_severity_mem:
  "rb_severity (pattern_step cat rule c r p) = rb_severity r
   \<or> (test p c \<and> rb_severity (pattern_step cat rule c r p) = rule_severity rule)"
  by (simp add: pattern_step_def Let_def)

lemma patterns_severity_mem:
  "rb_severity (foldl (pattern_step cat rule c) r ps) = rb_severity r
   \<or> ((\<exists>p \<in> set ps. test p c)
        \<and> rb_severity (foldl (pattern_step cat rule c) r ps) = rule_severity rule)"
proof (induction ps arbitrary: r)
  case Nil
  then show ?case by simp
next
  case (Cons p ps)
  show ?case
    using Cons.IH [of "pattern_step cat rule c r p"] pattern_step_severity_mem [of cat rule c r p]
    by auto
qed

lemma rule_step_severity_mem:
  "rb_severity (rule_step c r (cat, rule)) = rb_severity r
   \<or> (rule_matches c rule \<and> rb_severity (rule_step c r (cat, rule)) = rule_severity rule)"
  using keywords_severity_mem [of cat rule "toLowerCase c" r "rule_keywords rule"]
    patterns_severity_mem [of cat rule c
      "foldl (keyword_step cat rule (toLowerCase c)) r (rule_keywords rule)" "rule_patterns rule"]
  by (auto simp: rule_step_def rule_matches_def)

lemma rules_severity_mem:
  "rb_severity (foldl (rule_step c) r rules)
     \<in> insert (rb_severity r) (set (map rule_severity (matched_rules rules c)))"
proof (induction rules arbitrary: r)
  case Nil
  then show ?case by simp
next
  case (Cons e rules)
  obtain cat rule where e: "e = (cat, rule)" by (cases e)
  show ?case
    using Cons.IH [of "rule_step c r (cat, rule)"] rule_step_severity_mem [of c r cat rule]
    by (auto simp: e matched_rules_def)
qed

lemma console_error_frame [simp]:
  "classifier_calls (console_error m w) = classifier_calls w"
  "emitted (console_error m w) = emitted w"
  "w_redis (console_error m w) = w_redis w"
  "moderationLogs (console_error m w) = moderationLogs w"
  "emergencyAlerts (console_error m w) = emergencyAlerts w"
  "sessionStates (console_error m w) = sessionStates w"
  by (simp_all add: console_error_def)

lemma store_logModerationEvent_frame:
  "classifier_calls (snd (store_logModerationEvent sid ev clk w)) = classifier_calls w"
  "emitted (snd (store_logModerationEvent sid ev clk w)) = emitted w"
  by (simp_all add: store_logModerationEvent_def Let_def split: option.splits prod.splits bool.splits)

lemma logModerationEvent_frame:
  "classifier_calls (logModerationEvent a clk w) = classifier_calls w"
  "emitted (logModerationEvent a clk w) = emitted w"
  by (simp_all add: logModerationEvent_def store_logModerationEvent_frame)

lemma analyzeContent_no_ai:
  "\<not> needs_ai content (applyRuleBasedModeration content) \<Longrightarrow>
   classifier_calls (snd (analyzeContent classifier content ctx clk w)) = classifier_calls w"
  by (simp add: analyzeContent_def Let_def logModerationEvent_frame)

lemma analyzeContent_ai:
  "needs_ai content (applyRuleBasedModeration content) \<Longrightarrow>
   classifier_calls (snd (analyzeContent classifier content ctx clk w)) = classifier_calls w @ [content]"
  by (simp add: analyzeContent_def Let_def logModerationEvent_frame performAIAnalysis_def
      split: classifier_outcome.splits flags_field.splits)


section \<open>The crisis message, and the store when the backend accepts or rejects\<close>

lemma rule_stage_crisis_message:
  "applyRuleBasedModeration ''I want to kill myself'' =
     \<lparr>rb_flags = [KeywordFlag ''crisis_detection'' ''kill myself'' 10],
      rb_severity = ''critical'', rb_action = ''immediate_intervention'',
      rb_confidence = 8 / 10, rb_definitive = True\<rparr>"
  by code_simp



lemma executeModerationAction_crisis:
  assumes "a_action a = ''immediate_intervention''"
    and "supportiveResponse_of (a_aiAnalysis a) = None"
  shows "executeModerationAction a sid pid clk w =
     (Some \<lparr>ar_action = ''immediate_intervention'',
             ar_executed = [''moderator_notification'', ''emergency_alert_logged''],
             ar_timestamp = now_iso clk\<rparr>,
      snd (storeEmergencyAlert sid (crisis_alert a pid) clk
             (emit ''moderators'' ''crisis_alert''
                (CrisisAlert sid pid (a_content a) (a_severity a) (now_iso clk)) w)))"
  using assms
  by (simp add: executeModerationAction_def emergencyProtocols_def no_switches_def
      intervention_block_def warning_block_def filter_block_def Let_def)


lemma redis_send_accepted:
  assumes "True \<notin> set (take (Suc n) (r_faults r))"
  shows "redis_send cmd r =
           (True, redis_effect cmd (r\<lparr>r_issued := r_issued r @ [cmd],
                                      r_faults := tl (r_faults r)\<rparr>))"
  using assms by (cases "r_faults r") (auto simp: redis_send_def Let_def)

lemma redis_send_rejected:
  assumes "take 1 (r_faults r) = [True]"
  shows "redis_send cmd r =
           (False, r\<lparr>r_issued := r_issued r @ [cmd], r_faults := tl (r_faults r)\<rparr>)"
  using assms by (cases "r_faults r") (auto simp: redis_send_def Let_def)

lemma take_tl_accepts:
  "True \<notin> set (take (Suc n) fs) \<Longrightarrow> True \<notin> set (take n (tl fs))"
  by (cases fs) auto

lemma redis_effect_faults [simp]: "r_faults (redis_effect cmd r) = r_faults r"
  by (cases cmd) auto

lemma redis_effect_issued [simp]: "r_issued (redis_effect cmd r) = r_issued r"
  by (cases cmd) auto

lemma storeEmergencyAlert_accepted:
  assumes "w_redis w = Some r" and "True \<notin> set (take 3 (r_faults r))"
  shows "fst (storeEmergencyAlert sid alert clk w)"
    and "backend_entry (snd (storeEmergencyAlert sid alert clk w)) (emergency_key sid clk)
           = Some (2592000, AlertData (emergency_data sid alert clk))"
    and "sent_by w (snd (storeEmergencyAlert sid alert clk w)) =
           [SETEX (emergency_key sid clk) 2592000 (AlertData (emergency_data sid alert clk)),
            LPUSH (''emergency_list:'' @ sid) (emergency_key sid clk),
            EXPIRE (''emergency_list:'' @ sid) 2592000]"
proof -
  have a3: "True \<notin> set (take (Suc 2) (r_faults r))" using assms(2) by (simp add: numeral_3_eq_3)
  have a2: "True \<notin> set (take (Suc 1) (tl (r_faults r)))"
    using take_tl_accepts [OF a3] by (simp add: numeral_2_eq_2)
  have a1: "True \<notin> set (take (Suc 0) (tl (tl (r_faults r))))"
    using take_tl_accepts [of 1 "tl (r_faults r)"] a2 by simp
  show "fst (storeEmergencyAlert sid alert clk w)"
    using assms(1) a2 a1
    by (simp add: storeEmergencyAlert_def Let_def redis_send_accepted [OF a3]
        redis_send_accepted [where n = 1] redis_send_accepted [where n = 0])
  show "backend_entry (snd (storeEmergencyAlert sid alert clk w)) (emergency_key sid clk)
           = Some (2592000, AlertData (emergency_data sid alert clk))"
    using assms(1) a2 a1
    by (simp add: storeEmergencyAlert_def Let_def redis_send_accepted [OF a3]
        redis_send_accepted [where n = 1] redis_send_accepted [where n = 0] backend_entry_def)
  show "sent_by w (snd (storeEmergencyAlert sid alert clk w)) =
           [SETEX (emergency_key sid clk) 2592000 (AlertData (emergency_data sid alert clk)),
            LPUSH (''emergency_list:'' @ sid) (emergency_key sid clk),
            EXPIRE (''emergency_list:'' @ sid) 2592000]"
    using assms(1) a2 a1
    by (simp add: storeEmergencyAlert_def Let_def redis_send_accepted [OF a3]
        redis_send_accepted [where n = 1] redis_send_accepted [where n = 0] sent_by_def)
qed


lemma emit_frame [simp]:
  "w_redis (emit room event p w) = w_redis w"
  "emergencyAlerts (emit room event p w) = emergencyAlerts w"
  "emitted (emit room event p w) = emitted w @ [Emit room event p]"
  "classifier_calls (emit room event p w) = classifier_calls w"
  by (simp_all add: emit_def)


section \<open>The verdict after the rule stage and after the merge\<close>

lemma rule_stage_hate_message:
  "applyRuleBasedModeration ''I hate this so much'' =
     \<lparr>rb_flags = [KeywordFlag ''harassment'' ''hate'' 2],
      rb_severity = ''high'', rb_action = ''warn_and_monitor'',
      rb_confidence = 8 / 10, rb_definitive = False\<rparr>"
  by code_simp

lemma level_none_least: "getSeverityLevel s > getSeverityLevel s' \<Longrightarrow> s \<noteq> ''none''"
  by (auto simp: getSeverityLevel_def)

lemma keyword_step_untouched:
  "none_untouched r \<Longrightarrow> none_untouched (keyword_step cat rule lc r kw)"
  by (auto simp: keyword_step_def Let_def none_untouched_def dest: level_none_least)

lemma pattern_step_untouched:
  "none_untouched r \<Longrightarrow> none_untouched (pattern_step cat rule c r p)"
  by (auto simp: pattern_step_def Let_def none_untouched_def dest: level_none_least)

lemma rule_step_untouched:
  "none_untouched r \<Longrightarrow> none_untouched (rule_step c r e)"
proof -
  have kw: "none_untouched r \<Longrightarrow> none_untouched (foldl (keyword_step cat rule lc) r kws)"
    for cat rule lc r kws
    by (induction kws arbitrary: r) (simp_all add: keyword_step_untouched)
  have pt: "none_untouched r \<Longrightarrow> none_untouched (foldl (pattern_step cat rule c) r ps)"
    for cat rule r ps
    by (induction ps arbitrary: r) (simp_all add: pattern_step_untouched)
  assume "none_untouched r"
  then show ?thesis
    by (cases e) (simp add: rule_step_def kw pt)
qed

lemma applyRuleBasedModeration_untouched:
  "none_untouched (applyRuleBasedModeration c)"
proof -
  have "none_untouched r \<Longrightarrow> none_untouched (foldl (rule_step c) r rules)" for r rules
    by (induction rules arbitrary: r) (simp_all add: rule_step_untouched)
  moreover have "none_untouched rule_result_init"
    by (simp add: none_untouched_def rule_result_init_def)
  ultimately show ?thesis
    by (simp add: applyRuleBasedModeration_def applyRuleBasedModeration_with_def)
qed

lemma take_rule_result_verdict:
  "take_rule_result (initial_analysis content ctx clk) (applyRuleBasedModeration content)
     = rule_verdict content ctx clk"
proof (cases "rb_severity (applyRuleBasedModeration content) = ''none''")
  case True
  with applyRuleBasedModeration_untouched [of content] show ?thesis
    by (simp add: rule_verdict_def none_untouched_def take_rule_result_def
        initial_analysis_def Let_def)
next
  case False
  then show ?thesis
    by (simp add: rule_verdict_def take_rule_result_def initial_analysis_def Let_def)
qed

lemma analyzeContent_skipped:
  "\<not> needs_ai content (applyRuleBasedModeration content) \<Longrightarrow>
   analyzeContent classifier content ctx clk w =
     (rule_verdict content ctx clk, logModerationEvent (rule_verdict content ctx clk) clk w)"
  by (simp add: analyzeContent_def Let_def take_rule_result_verdict)

lemma analyzeContent_merged:
  assumes "needs_ai content (applyRuleBasedModeration content)"
    and "performAIAnalysis classifier content w = (aiResult, w1)"
    and "ai_flags aiResult = Flags fs"
  shows "analyzeContent classifier content ctx clk w =
     ((take_higher_severity (rule_verdict content ctx clk) aiResult)
        \<lparr>a_flags := a_flags (take_higher_severity (rule_verdict content ctx clk) aiResult) @ fs,
         a_aiAnalysis := ai_details aiResult\<rparr>,
      logModerationEvent
        ((take_higher_severity (rule_verdict content ctx clk) aiResult)
           \<lparr>a_flags := a_flags (take_higher_severity (rule_verdict content ctx clk) aiResult) @ fs,
            a_aiAnalysis := ai_details aiResult\<rparr>) clk w1)"
  using assms by (simp add: analyzeContent_def Let_def take_rule_result_verdict)

lemma analyzeContent_thrown:
  assumes "needs_ai content (applyRuleBasedModeration content)"
    and "performAIAnalysis classifier content w = (aiResult, w1)"
    and "ai_flags aiResult = NotIterable"
  shows "analyzeContent classifier content ctx clk w =
     (error_verdict content ''aiResult.flags is not iterable'',
      console_error ''Content analysis failed:'' w1)"
  using assms by (simp add: analyzeContent_def Let_def)

lemma rule_stage_kill_myself:
  "rb_definitive (applyRuleBasedModeration ''kill myself'')"
  by code_simp

lemma rule_stage_hello_world:
  "\<not> rb_definitive (applyRuleBasedModeration ''hello world'')"
  by code_simp

section \<open>What the store sends and keeps\<close>

lemma sent_by_append [simp]:
  "sent_by (w\<lparr>w_redis := Some r\<rparr>) (w'\<lparr>w_redis := Some (r'\<lparr>r_issued := r_issued r @ cs\<rparr>)\<rparr>) = cs"
  by (simp add: sent_by_def)

lemma setSessionState_sent:
  "sent_by w (snd (setSessionState sid state clk w)) =
     (case w_redis w of
        None \<Rightarrow> []
      | Some r \<Rightarrow> [SETEX (''live_sanctuary:'' @ sid) 86400
                     (SessionData (state\<lparr>ss_timestamp := Some (now_ms clk),
                                         ss_lastUpdated := Some (now_iso clk)\<rparr>))])"
  by (auto simp: setSessionState_def sent_by_def Let_def redis_send_def
      split: option.splits list.splits)

lemma setVoiceConfig_sent:
  "sent_by w (snd (setVoiceConfig sid pid cfg clk w)) =
     (case w_redis w of
        None \<Rightarrow> []
      | Some r \<Rightarrow> [SETEX (''voice_config:'' @ sid @ '':'' @ pid) 3600
                     (VoiceData \<lparr>vc_fields = cfg, vc_timestamp = now_ms clk,
                                 vc_sessionId = sid, vc_participantId = pid\<rparr>)])"
  by (auto simp: setVoiceConfig_def sent_by_def Let_def redis_send_def
      split: option.splits list.splits)

lemma store_logModerationEvent_sent:
  "sent_by w (snd (store_logModerationEvent sid ev clk w)) =
     (case w_redis w of
        None \<Rightarrow> []
      | Some r \<Rightarrow>
          SETEX (moderation_key sid clk) 604800 (EventData (moderation_data sid ev clk))
          # (if True \<in> set (take 1 (r_faults r)) then []
             else LPUSH (''moderation_list:'' @ template_of sid) (moderation_key sid clk)
                  # (if True \<in> set (take 2 (r_faults r)) then []
                     else [EXPIRE (''moderation_list:'' @ template_of sid) 604800])))"
  by (auto simp: store_logModerationEvent_def sent_by_def Let_def redis_send_def
      split: option.splits list.splits)

lemma storeEmergencyAlert_sent:
  "sent_by w (snd (storeEmergencyAlert sid alert clk w)) =
     (case w_redis w of
        None \<Rightarrow> []
      | Some r \<Rightarrow>
          SETEX (emergency_key sid clk) 2592000 (AlertData (emergency_data sid alert clk))
          # (if True \<in> set (take 1 (r_faults r)) then []
             else LPUSH (''emergency_list:'' @ sid) (emergency_key sid clk)
                  # (if True \<in> set (take 2 (r_faults r)) then []
                     else [EXPIRE (''emergency_list:'' @ sid) 2592000])))"
  by (auto simp: storeEmergencyAlert_def sent_by_def Let_def redis_send_def
      split: option.splits list.splits)

lemma backend_accepts_3:
  "backend_accepts 3 w \<longleftrightarrow>
     (\<exists>r. w_redis w = Some r \<and> True \<notin> set (take 1 (r_faults r))
          \<and> True \<notin> set (take 2 (r_faults r)) \<and> True \<notin> set (take 3 (r_faults r)))"
proof -
  have "set (take 1 fs) \<subseteq> set (take 3 fs)" "set (take 2 fs) \<subseteq> set (take 3 fs)"
    for fs :: "bool list"
    by (simp_all add: set_take_subset_set_take)
  then show ?thesis
    by (auto simp: backend_accepts_def split: option.splits)
qed

lemma setSessionState_accepted:
  assumes "backend_accepts 1 w"
  shows "backend_entry (snd (setSessionState sid state clk w)) (''live_sanctuary:'' @ sid)
           = Some (86400, SessionData (state\<lparr>ss_timestamp := Some (now_ms clk),
                                               ss_lastUpdated := Some (now_iso clk)\<rparr>))"
proof -
  from assms obtain r where r: "w_redis w = Some r" "True \<notin> set (take (Suc 0) (r_faults r))"
    by (auto simp: backend_accepts_def split: option.splits)
  show ?thesis
    by (simp add: setSessionState_def r(1) Let_def redis_send_accepted [OF r(2)]
        backend_entry_def)
qed

lemma setVoiceConfig_accepted:
  assumes "backend_accepts 1 w"
  shows "backend_entry (snd (setVoiceConfig sid pid cfg clk w))
             (''voice_config:'' @ sid @ '':'' @ pid)
           = Some (3600, VoiceData \<lparr>vc_fields = cfg, vc_timestamp = now_ms clk,
                                     vc_sessionId = sid, vc_participantId = pid\<rparr>)"
proof -
  from assms obtain r where r: "w_redis w = Some r" "True \<notin> set (take (Suc 0) (r_faults r))"
    by (auto simp: backend_accepts_def split: option.splits)
  show ?thesis
    by (simp add: setVoiceConfig_def r(1) Let_def redis_send_accepted [OF r(2)]
        backend_entry_def)
qed

lemma store_logModerationEvent_accepted:
  assumes "backend_accepts 3 w"
  shows "backend_entry (snd (store_logModerationEvent sid ev clk w)) (moderation_key sid clk)
           = Some (604800, EventData (moderation_data sid ev clk))"
    and "fst (store_logModerationEvent sid ev clk w)"
proof -
  from assms obtain r where r: "w_redis w = Some r" "True \<notin> set (take 3 (r_faults r))"
    by (auto simp: backend_accepts_def split: option.splits)
  have a3: "True \<notin> set (take (Suc 2) (r_faults r))" using r(2) by (simp add: numeral_3_eq_3)
  have a2: "True \<notin> set (take (Suc 1) (tl (r_faults r)))"
    using take_tl_accepts [OF a3] by (simp add: numeral_2_eq_2)
  have a1: "True \<notin> set (take (Suc 0) (tl (tl (r_faults r))))"
    using take_tl_accepts [of 1 "tl (r_faults r)"] a2 by simp
  show "backend_entry (snd (store_logModerationEvent sid ev clk w)) (moderation_key sid clk)
           = Some (604800, EventData (moderation_data sid ev clk))"
    using r(1) a2 a1
    by (simp add: store_logModerationEvent_def Let_def redis_send_accepted [OF a3]
        redis_send_accepted [where n = 1] redis_send_accepted [where n = 0] backend_entry_def)
  show "fst (store_logModerationEvent sid ev clk w)"
    using r(1) a2 a1
    by (simp add: store_logModerationEvent_def Let_def redis_send_accepted [OF a3]
        redis_send_accepted [where n = 1] redis_send_accepted [where n = 0])
qed

lemma storeEmergencyAlert_rejected:
  assumes "backend_rejects_next w"
  shows "\<not> fst (storeEmergencyAlert sid alert clk w)"
    and "backend_entry (snd (storeEmergencyAlert sid alert clk w)) k = backend_entry w k"
    and "console (snd (storeEmergencyAlert sid alert clk w))
           = console w @ [''Failed to store emergency alert:'']"
    and "emergencyAlerts (snd (storeEmergencyAlert sid alert clk w)) = emergencyAlerts w"
    and "sent_by w (snd (storeEmergencyAlert sid alert clk w))
           = [SETEX (emergency_key sid clk) 2592000 (AlertData (emergency_data sid alert clk))]"
proof -
  from assms obtain r where r: "w_redis w = Some r" "take 1 (r_faults r) = [True]"
    by (auto simp: backend_rejects_next_def split: option.splits)
  show "\<not> fst (storeEmergencyAlert sid alert clk w)"
    "backend_entry (snd (storeEmergencyAlert sid alert clk w)) k = backend_entry w k"
    "console (snd (storeEmergencyAlert sid alert clk w))
           = console w @ [''Failed to store emergency alert:'']"
    "emergencyAlerts (snd (storeEmergencyAlert sid alert clk w)) = emergencyAlerts w"
    by (simp_all add: storeEmergencyAlert_def Let_def r(1) redis_send_rejected [OF r(2)]
        backend_entry_def console_error_def)
  show "sent_by w (snd (storeEmergencyAlert sid alert clk w))
           = [SETEX (emergency_key sid clk) 2592000 (AlertData (emergency_data sid alert clk))]"
    using r by (simp add: storeEmergencyAlert_sent)
qed

lemma logModerationEvent_store:
  "logModerationEvent a clk w = snd (store_logModerationEvent (a_sessionId a) (event_of a) clk w)"
  by (simp add: logModerationEvent_def event_of_def)

lemma truncate_moderation_data:
  "moderation_event.truncate (moderation_data sid ev clk) = ev"
  by (simp add: moderation_data_def moderation_event.defs)

lemma store_logModerationEvent_memory:
  "w_redis w = None \<Longrightarrow>
   store_logModerationEvent sid ev clk w =
     (True, w\<lparr>moderationLogs := moderationLogs w @ [moderation_data sid ev clk]\<rparr>)"
  by (simp add: store_logModerationEvent_def)

lemma sent_by_issued:
  "w_redis w \<noteq> None \<Longrightarrow> w_redis w' = Some r' \<Longrightarrow> set (sent_by w w') \<subseteq> set (r_issued r')"
  by (auto simp: sent_by_def dest: in_set_dropD)

lemma persisted_memory:
  "w_redis w = None \<Longrightarrow> persisted a (logModerationEvent a clk w)"
  by (simp add: logModerationEvent_store store_logModerationEvent_memory persisted_def
      truncate_moderation_data)

lemma persisted_backend:
  assumes "backend_accepts 3 w"
  shows "persisted a (logModerationEvent a clk w)"
proof -
  let ?w' = "snd (store_logModerationEvent (a_sessionId a) (event_of a) clk w)"
  let ?c = "SETEX (moderation_key (a_sessionId a) clk) 604800
              (EventData (moderation_data (a_sessionId a) (event_of a) clk))"
  from assms obtain r where r: "w_redis w = Some r"
    by (auto simp: backend_accepts_def split: option.splits)
  have entry: "backend_entry ?w' (moderation_key (a_sessionId a) clk)
      = Some (604800, EventData (moderation_data (a_sessionId a) (event_of a) clk))"
    by (rule store_logModerationEvent_accepted(1) [OF assms])
  then obtain r' where r': "w_redis ?w' = Some r'"
    by (auto simp: backend_entry_def split: option.splits)
  have "?c \<in> set (sent_by w ?w')"
    by (simp add: store_logModerationEvent_sent r)
  then have "?c \<in> set (r_issued r')"
    using sent_by_issued [of w ?w' r'] r r' by auto
  then show ?thesis
    using entry r'
    by (auto simp: persisted_def logModerationEvent_store backend_entry_def
        truncate_moderation_data intro!: bexI [of _ ?c])
qed

lemma performAIAnalysis_frame:
  "w_redis (snd (performAIAnalysis classifier content w)) = w_redis w"
  "moderationLogs (snd (performAIAnalysis classifier content w)) = moderationLogs w"
  by (simp_all add: performAIAnalysis_def Let_def console_error_def
      split: classifier_outcome.splits)

section \<open>The logging of verdicts\<close>

lemma sent_by_same_backend:
  "w_redis w1 = w_redis w \<Longrightarrow> sent_by w w' = sent_by w1 w'"
  by (simp add: sent_by_def)

lemma sent_by_nothing:
  "w_redis w' = w_redis w \<Longrightarrow> sent_by w w' = []"
  by (simp add: sent_by_def split: option.splits)

lemma backend_accepts_same_backend:
  "w_redis w1 = w_redis w \<Longrightarrow> backend_accepts n w1 = backend_accepts n w"
  by (simp add: backend_accepts_def)

lemma logged_after:
  assumes same: "w_redis w1 = w_redis w" "moderationLogs w1 = moderationLogs w"
  shows "w_redis w = None \<Longrightarrow>
           moderationLogs (logModerationEvent v clk w1)
             = moderationLogs w @ [moderation_data (a_sessionId v) (event_of v) clk]"
    and "w_redis w = None \<or> backend_accepts 3 w \<Longrightarrow> persisted v (logModerationEvent v clk w1)"
    and "w_redis w \<noteq> None \<Longrightarrow>
           filter is_event_write (sent_by w (logModerationEvent v clk w1))
             = [SETEX (moderation_key (a_sessionId v) clk) 604800
                  (EventData (moderation_data (a_sessionId v) (event_of v) clk))]"
proof -
  show "moderationLogs (logModerationEvent v clk w1)
             = moderationLogs w @ [moderation_data (a_sessionId v) (event_of v) clk]"
    if "w_redis w = None"
    using that same by (simp add: logModerationEvent_store store_logModerationEvent_memory)
  show "persisted v (logModerationEvent v clk w1)" if "w_redis w = None \<or> backend_accepts 3 w"
    using that same persisted_memory [of w1 v clk] persisted_backend [of w1 v clk]
    by (auto simp: backend_accepts_same_backend [OF same(1)])
  show "filter is_event_write (sent_by w (logModerationEvent v clk w1))
             = [SETEX (moderation_key (a_sessionId v) clk) 604800
                  (EventData (moderation_data (a_sessionId v) (event_of v) clk))]"
    if "w_redis w \<noteq> None"
    using that same
    by (auto simp: sent_by_same_backend [OF same(1)] logModerationEvent_store
        store_logModerationEvent_sent split: option.splits)
qed

lemma take_higher_severity_error [simp]:
  "a_error (take_higher_severity a aiResult) = a_error a"
  "a_sessionId (take_higher_severity a aiResult) = a_sessionId a"
  by (simp_all add: take_higher_severity_def)

lemma rule_stage_hello:
  "applyRuleBasedModeration ''hello'' = rule_result_init"
  by code_simp

lemma store_logModerationEvent_rejected:
  assumes "backend_rejects_next w"
  shows "backend_entry (snd (store_logModerationEvent sid ev clk w)) k = backend_entry w k"
    and "w_redis (snd (store_logModerationEvent sid ev clk w)) \<noteq> None"
    and "console (snd (store_logModerationEvent sid ev clk w))
           = console w @ [''Failed to log moderation event:'']"
proof -
  from assms obtain r where r: "w_redis w = Some r" "take 1 (r_faults r) = [True]"
    by (auto simp: backend_rejects_next_def split: option.splits)
  show "backend_entry (snd (store_logModerationEvent sid ev clk w)) k = backend_entry w k"
    "w_redis (snd (store_logModerationEvent sid ev clk w)) \<noteq> None"
    "console (snd (store_logModerationEvent sid ev clk w))
           = console w @ [''Failed to log moderation event:'']"
    by (simp_all add: store_logModerationEvent_def Let_def r(1) redis_send_rejected [OF r(2)]
        backend_entry_def console_error_def)
qed

lemma not_persisted_on_empty_backend:
  assumes "w_redis w \<noteq> None" and "\<And>k. backend_entry w k = None"
  shows "\<not> persisted a w"
  using assms
  by (auto simp: persisted_def backend_entry_def split: option.splits redis_cmd.splits
      payload.splits)

section \<open>The roster operations\<close>

lemma stored_session_console [simp]:
  "stored_session (console_error m w) x = stored_session w x"
  by (simp add: stored_session_def console_error_def split: option.splits)

lemma getSessionState_result:
  assumes "getSessionState sid w = (res, w1)"
  shows "res = None \<or> res = stored_session w sid"
    and "stored_session w1 x = stored_session w x"
  using assms
  by (auto simp: getSessionState_def stored_session_def Let_def redis_send_def console_error_def
      split: option.splits list.splits if_splits prod.splits payload.splits)

lemma setSessionState_result:
  assumes "setSessionState sid st clk w = (ok, w')"
  shows "ok \<Longrightarrow> \<exists>s'. stored_session w' sid = Some s'
            \<and> ss_participants s' = ss_participants st
            \<and> ss_currentParticipants s' = ss_currentParticipants st"
    and "\<not> ok \<Longrightarrow> stored_session w' x = stored_session w x"
    and "x \<noteq> sid \<Longrightarrow> stored_session w' x = stored_session w x"
  using assms
  by (auto simp: setSessionState_def stored_session_def Let_def redis_send_def console_error_def
      split: option.splits list.splits if_splits prod.splits)

lemma roster_write_result:
  assumes "(case getSessionState sid w of
              (None, w1) \<Rightarrow> (False, w1)
            | (Some s, w1) \<Rightarrow>
                setSessionState sid
                  (s\<lparr>ss_participants := Some (f (roster s)),
                     ss_currentParticipants := Some (length (f (roster s)))\<rparr>) clk w1)
           = (ok, w')"
  shows "ok \<Longrightarrow> \<exists>s s'. stored_session w sid = Some s \<and> stored_session w' sid = Some s'
            \<and> ss_participants s' = Some (f (roster s))
            \<and> ss_currentParticipants s' = Some (length (f (roster s)))"
    and "\<not> ok \<Longrightarrow> stored_session w' x = stored_session w x"
    and "x \<noteq> sid \<Longrightarrow> stored_session w' x = stored_session w x"
proof -
  obtain res w1 where g: "getSessionState sid w = (res, w1)"
    by (cases "getSessionState sid w")
  note gr = getSessionState_result [OF g]
  show "\<exists>s s'. stored_session w sid = Some s \<and> stored_session w' sid = Some s'
            \<and> ss_participants s' = Some (f (roster s))
            \<and> ss_currentParticipants s' = Some (length (f (roster s)))"
    if ok
  proof (cases res)
    case None
    with assms g that show ?thesis by simp
  next
    case (Some s)
    with gr(1) have s: "stored_session w sid = Some s" by simp
    from assms g Some have set: "setSessionState sid
        (s\<lparr>ss_participants := Some (f (roster s)),
           ss_currentParticipants := Some (length (f (roster s)))\<rparr>)
        clk w1 = (ok, w')"
      by simp
    from setSessionState_result(1) [OF set that] s show ?thesis by auto
  qed
  show "stored_session w' x = stored_session w x" if "\<not> ok"
  proof (cases res)
    case None
    with assms g gr(2) show ?thesis by auto
  next
    case (Some s)
    from assms g Some obtain st where "setSessionState sid st clk w1 = (ok, w')"
      by auto
    from setSessionState_result(2) [OF this that] gr(2) show ?thesis by simp
  qed
  show "stored_session w' x = stored_session w x" if "x \<noteq> sid"
  proof (cases res)
    case None
    with assms g gr(2) show ?thesis by auto
  next
    case (Some s)
    from assms g Some obtain st where "setSessionState sid st clk w1 = (ok, w')"
      by auto
    from setSessionState_result(3) [OF this that] gr(2) show ?thesis by simp
  qed
qed

lemma updateParticipant_as_write:
  "updateParticipant sid pid data clk w =
     (case getSessionState sid w of
        (None, w1) \<Rightarrow> (False, w1)
      | (Some s, w1) \<Rightarrow>
          setSessionState sid
            (s\<lparr>ss_participants := Some (update_or_add pid data (roster s)),
               ss_currentParticipants := Some (length (update_or_add pid data (roster s)))\<rparr>)
            clk w1)"
  by (simp add: updateParticipant_def Let_def roster_def split: prod.splits option.splits)






lemma findIndex_None: "findIndex P xs = None \<longleftrightarrow> (\<forall>x \<in> set xs. \<not> P x)"
  by (induction xs) auto

lemma findIndex_Some: "findIndex P xs = Some i \<Longrightarrow> i < length xs \<and> P (xs ! i)"
  by (induction xs arbitrary: i) (auto split: if_splits)

lemma id_count_zero: "id_count q ps = 0 \<longleftrightarrow> (\<forall>p \<in> set ps. \<not> has_id q p)"
  by (auto simp: id_count_def filter_empty_conv)

lemma id_count_ids:
  "id_count q ps = length (filter (\<lambda>v. v = Some (JStr q)) (map (\<lambda>p. p ''id'') ps))"
proof -
  have "has_id q = (\<lambda>p. p ''id'' = Some (JStr q))"
    by (rule ext) (simp add: has_id_def)
  then show ?thesis
    by (simp add: id_count_def filter_map comp_def)
qed

lemma merged_entry_id:
  assumes "has_id pid p" and "keeps_id pid data"
  shows "(p ++ data) ''id'' = p ''id''"
  using assms by (auto simp: has_id_def keeps_id_def map_add_def)

lemma update_keeps_ids:
  assumes "findIndex (has_id pid) ps = Some i" and "keeps_id pid data"
  shows "map (\<lambda>p. p ''id'') (ps[i := ps ! i ++ data]) = map (\<lambda>p. p ''id'') ps"
proof -
  from findIndex_Some [OF assms(1)] have i: "i < length ps" "has_id pid (ps ! i)" by simp_all
  have "map (\<lambda>p. p ''id'') (ps[i := ps ! i ++ data])
      = (map (\<lambda>p. p ''id'') ps)[i := (ps ! i ++ data) ''id'']"
    by (simp add: map_update)
  also have "\<dots> = (map (\<lambda>p. p ''id'') ps)[i := map (\<lambda>p. p ''id'') ps ! i]"
    using i by (simp add: merged_entry_id [OF i(2) assms(2)])
  finally show ?thesis by simp
qed

lemma pushed_entry_id:
  "keeps_id pid data \<Longrightarrow> has_id q ([''id'' \<mapsto> JStr pid] ++ data) \<longleftrightarrow> q = pid"
  by (auto simp: has_id_def keeps_id_def map_add_def)

lemma update_or_add_count:
  assumes "keeps_id pid data"
  shows "id_count q (update_or_add pid data ps)
           = (if q = pid \<and> id_count pid ps = 0 then 1 else id_count q ps)"
proof (cases "findIndex (has_id pid) ps")
  case None
  then have "id_count pid ps = 0" by (simp add: id_count_zero findIndex_None)
  then show ?thesis
    using None assms by (simp add: update_or_add_def id_count_def pushed_entry_id)
next
  case (Some i)
  from findIndex_Some [OF Some] have "has_id pid (ps ! i)" "ps ! i \<in> set ps" by simp_all
  then have "id_count pid ps \<noteq> 0" by (auto simp: id_count_zero)
  then show ?thesis
    using Some by (simp add: update_or_add_def id_count_ids update_keeps_ids [OF Some assms])
qed

lemma update_or_add_length:
  "length (update_or_add pid data ps)
     = (if id_count pid ps = 0 then Suc (length ps) else length ps)"
proof (cases "findIndex (has_id pid) ps")
  case None
  then have "id_count pid ps = 0" by (simp add: id_count_zero findIndex_None)
  then show ?thesis using None by (simp add: update_or_add_def)
next
  case (Some i)
  from findIndex_Some [OF Some] have "has_id pid (ps ! i)" "ps ! i \<in> set ps" by simp_all
  then have "id_count pid ps \<noteq> 0" by (auto simp: id_count_zero)
  then show ?thesis using Some by (simp add: update_or_add_def)
qed

lemma updateParticipant_roster:
  "stored_roster (snd (updateParticipant sid pid data clk w)) sid
     = (if fst (updateParticipant sid pid data clk w)
        then update_or_add pid data (stored_roster w sid)
        else stored_roster w sid)"
proof -
  obtain ok w' where r: "updateParticipant sid pid data clk w = (ok, w')"
    by (cases "updateParticipant sid pid data clk w")
  show ?thesis
  proof (cases ok)
    case True
    from roster_write_result(1) [OF r [unfolded updateParticipant_as_write] True]
    show ?thesis by (auto simp: r True stored_roster_def roster_def)
  next
    case False
    from roster_write_result(2) [OF r [unfolded updateParticipant_as_write] False, of sid]
    show ?thesis by (simp add: r False stored_roster_def)
  qed
qed

lemma join_step:
  assumes "is_join_of sid pid op"
  shows "id_count q (stored_roster (snd (apply_roster_op op w)) sid)
           = (if fst (apply_roster_op op w) \<and> q = pid \<and> id_count pid (stored_roster w sid) = 0
              then 1 else id_count q (stored_roster w sid))"
    and "length (stored_roster (snd (apply_roster_op op w)) sid)
           = (if fst (apply_roster_op op w) \<and> id_count pid (stored_roster w sid) = 0
              then Suc (length (stored_roster w sid)) else length (stored_roster w sid))"
proof -
  from assms obtain data clk where op: "op = Join sid pid data clk" and keeps: "keeps_id pid data"
    by (cases op) auto
  show "id_count q (stored_roster (snd (apply_roster_op op w)) sid)
           = (if fst (apply_roster_op op w) \<and> q = pid \<and> id_count pid (stored_roster w sid) = 0
              then 1 else id_count q (stored_roster w sid))"
    by (simp add: op updateParticipant_roster update_or_add_count [OF keeps])
  show "length (stored_roster (snd (apply_roster_op op w)) sid)
           = (if fst (apply_roster_op op w) \<and> id_count pid (stored_roster w sid) = 0
              then Suc (length (stored_roster w sid)) else length (stored_roster w sid))"
    by (simp add: op updateParticipant_roster update_or_add_length)
qed

lemma joins_count:
  "\<forall>op \<in> set ops. is_join_of sid pid op \<Longrightarrow>
   id_count q (stored_roster (run_roster_ops ops w) sid) \<le> max 1 (id_count q (stored_roster w sid))"
proof (induction ops arbitrary: w)
  case Nil
  then show ?case by simp
next
  case (Cons op ops)
  have "id_count q (stored_roster (run_roster_ops ops (snd (apply_roster_op op w))) sid)
      \<le> max 1 (id_count q (stored_roster (snd (apply_roster_op op w)) sid))"
    using Cons by simp
  also have "\<dots> \<le> max 1 (id_count q (stored_roster w sid))"
  proof -
    have "is_join_of sid pid op" using Cons.prems by simp
    from join_step(1) [OF this, of q w] show ?thesis by (simp split: if_splits)
  qed
  finally show ?case by simp
qed

lemma joins_length_present:
  "\<forall>op \<in> set ops. is_join_of sid pid op \<Longrightarrow> 0 < id_count pid (stored_roster w sid) \<Longrightarrow>
   length (stored_roster (run_roster_ops ops w) sid) = length (stored_roster w sid)"
proof (induction ops arbitrary: w)
  case Nil
  then show ?case by simp
next
  case (Cons op ops)
  have j: "is_join_of sid pid op" using Cons.prems(1) by simp
  have "0 < id_count pid (stored_roster (snd (apply_roster_op op w)) sid)"
    using Cons.prems(2) by (simp add: join_step(1) [OF j])
  then have "length (stored_roster (run_roster_ops ops (snd (apply_roster_op op w))) sid)
      = length (stored_roster (snd (apply_roster_op op w)) sid)"
    using Cons by simp
  then show ?case using Cons.prems(2) by (simp add: join_step(2) [OF j])
qed

lemma joins_length:
  "\<forall>op \<in> set ops. is_join_of sid pid op \<Longrightarrow>
   length (stored_roster (run_roster_ops ops w) sid) \<le> Suc (length (stored_roster w sid))"
proof (induction ops arbitrary: w)
  case Nil
  then show ?case by simp
next
  case (Cons op ops)
  have j: "is_join_of sid pid op" and js: "\<forall>op \<in> set ops. is_join_of sid pid op"
    using Cons.prems by simp_all
  let ?w1 = "snd (apply_roster_op op w)"
  show ?case
  proof (cases "fst (apply_roster_op op w) \<and> id_count pid (stored_roster w sid) = 0")
    case True
    then have "0 < id_count pid (stored_roster ?w1 sid)"
      by (simp add: join_step(1) [OF j])
    from joins_length_present [OF js this] True show ?thesis
      by (simp add: join_step(2) [OF j])
  next
    case False
    then have "length (stored_roster ?w1 sid) = length (stored_roster w sid)"
      by (simp add: join_step(2) [OF j])
    with Cons.IH [OF js, of ?w1] show ?thesis by simp
  qed
qed

lemma update_in_place:
  assumes "findIndex (has_id pid) (stored_roster w sid) = Some i"
    and "fst (updateParticipant sid pid data clk w)"
  shows "stored_roster (snd (updateParticipant sid pid data clk w)) sid
           = (stored_roster w sid)[i := (stored_roster w sid ! i) ++ data]"
  using assms by (simp add: updateParticipant_roster update_or_add_def)

lemmas roster_eval =
  lobby_world_def memory_world_def some_session_def some_clock_def updateParticipant_def
  removeParticipant_def getSessionState_def setSessionState_def update_or_add_def has_id_def
  stored_roster_def stored_session_def roster_def id_count_def Let_def map_add_def
  roster_counted_def

lemma storeEmergencyAlert_first_accepted:
  assumes "backend_accepts 1 w"
  shows "backend_entry (snd (storeEmergencyAlert sid alert clk w)) (emergency_key sid clk)
           = Some (2592000, AlertData (emergency_data sid alert clk))"
proof -
  from assms obtain r where r: "w_redis w = Some r" "True \<notin> set (take (Suc 0) (r_faults r))"
    by (auto simp: backend_accepts_def split: option.splits)
  show ?thesis
    by (simp add: storeEmergencyAlert_def Let_def r(1) redis_send_accepted [OF r(2)])
      (auto simp: redis_send_def Let_def backend_entry_def console_error_def
        split: list.splits)
qed



lemma store_logModerationEvent_first_accepted:
  assumes "backend_accepts 1 w"
  shows "backend_entry (snd (store_logModerationEvent sid ev clk w)) (moderation_key sid clk)
           = Some (604800, EventData (moderation_data sid ev clk))"
proof -
  from assms obtain r where r: "w_redis w = Some r" "True \<notin> set (take (Suc 0) (r_faults r))"
    by (auto simp: backend_accepts_def split: option.splits)
  show ?thesis
    by (simp add: store_logModerationEvent_def Let_def r(1) redis_send_accepted [OF r(2)])
      (auto simp: redis_send_def Let_def backend_entry_def console_error_def
        split: list.splits)
qed

section \<open>Claims on the rule stage\<close>

text \<open>
  C2. For every message, the severity of the rule-stage verdict is the greatest severity,
  in the order none < low < medium < high < critical, among the rules that match (and is
  the severity of one of them, or \<open>none\<close>); a matching keyword or pattern replaces
  severity, action and confidence only when its rule is strictly more severe than the
  running verdict; and when a critical rule matches, the verdict is definitive and
  \<open>analyzeContent\<close> does not call the classifier.
\<close>

theorem rule_stage_takes_highest_severity:
  "getSeverityLevel (rb_severity (applyRuleBasedModeration content)) =
     highest_level (map rule_severity (matched_rules moderationRules content))
   \<and> rb_severity (applyRuleBasedModeration content)
       \<in> insert ''none'' (set (map rule_severity (matched_rules moderationRules content)))
   \<and> (\<not> getSeverityLevel (rule_severity rule) > getSeverityLevel (rb_severity result) \<longrightarrow>
         rb_severity (keyword_step category rule lowerContent result keyword) = rb_severity result
       \<and> rb_action (keyword_step category rule lowerContent result keyword) = rb_action result
       \<and> rb_confidence (keyword_step category rule lowerContent result keyword)
           = rb_confidence result
       \<and> rb_severity (pattern_step category rule content result p) = rb_severity result
       \<and> rb_action (pattern_step category rule content result p) = rb_action result
       \<and> rb_confidence (pattern_step category rule content result p) = rb_confidence result)
   \<and> (''critical'' \<in> set (map rule_severity (matched_rules moderationRules content)) \<longrightarrow>
         rb_definitive (applyRuleBasedModeration content)
       \<and> classifier_calls (snd (analyzeContent classifier content ctx clk w))
           = classifier_calls w)"
proof (intro conjI impI)
  show "getSeverityLevel (rb_severity (applyRuleBasedModeration content)) =
     highest_level (map rule_severity (matched_rules moderationRules content))"
    by (rule applyRuleBasedModeration_level)
next
  show "rb_severity (applyRuleBasedModeration content)
       \<in> insert ''none'' (set (map rule_severity (matched_rules moderationRules content)))"
    using rules_severity_mem [of content rule_result_init moderationRules]
    by (simp add: applyRuleBasedModeration_def applyRuleBasedModeration_with_def
        rule_result_init_def)
next
  assume crit: "''critical'' \<in> set (map rule_severity (matched_rules moderationRules content))"
  then have "getSeverityLevel (rb_severity (applyRuleBasedModeration content)) = 4"
    by (simp only: applyRuleBasedModeration_level highest_level_4)
  then show definitive: "rb_definitive (applyRuleBasedModeration content)"
    by (simp add: applyRuleBasedModeration_definitive level_4_iff)
  then show "classifier_calls (snd (analyzeContent classifier content ctx clk w))
           = classifier_calls w"
    by (simp add: analyzeContent_no_ai needs_ai_def)
qed (simp_all add: keyword_step_def pattern_step_def Let_def)

text \<open>
  The message \<open>I hate that I want to die\<close> matches a critical rule: the verdict is
  definitive, no classifier call is made, and the later keyword \<open>hate\<close> of the less
  severe harassment rule leaves the severity at critical.
\<close>

theorem rule_stage_takes_highest_severity_witness:
  "''critical'' \<in> set (map rule_severity
       (matched_rules moderationRules ''I hate that I want to die''))
   \<and> rb_definitive (applyRuleBasedModeration ''I hate that I want to die'')
   \<and> classifier_calls (snd (analyzeContent (\<lambda>c. ClassifierFailed)
        ''I hate that I want to die'' some_context some_clock memory_world)) = []
   \<and> \<not> getSeverityLevel (rule_severity (snd (moderationRules ! 1)))
         > getSeverityLevel (rb_severity (applyRuleBasedModeration ''I hate that I want to die''))
   \<and> rb_severity (keyword_step ''harassment'' (snd (moderationRules ! 1))
         ''i hate that i want to die'' (applyRuleBasedModeration ''I hate that I want to die'')
         ''hate'') = ''critical''"
proof -
  have crit: "''critical'' \<in> set (map rule_severity
       (matched_rules moderationRules ''I hate that I want to die''))"
    by code_simp
  have sev: "rb_severity (applyRuleBasedModeration ''I hate that I want to die'') = ''critical''"
    by code_simp
  have lower: "\<not> getSeverityLevel (rule_severity (snd (moderationRules ! 1)))
         > getSeverityLevel (rb_severity (applyRuleBasedModeration ''I hate that I want to die''))"
    unfolding sev by (simp add: moderationRules_def getSeverityLevel_def)
  show ?thesis
    using crit lower sev
      rule_stage_takes_highest_severity [where content = "''I hate that I want to die''"
        and rule = "snd (moderationRules ! 1)"
        and result = "applyRuleBasedModeration ''I hate that I want to die''"
        and category = "''harassment''" and lowerContent = "''i hate that i want to die''"
        and keyword = "''hate''" and classifier = "\<lambda>c. ClassifierFailed"
        and ctx = some_context and clk = some_clock and w = memory_world]
    by (simp add: memory_world_def)
qed

section \<open>Claims on the pipeline\<close>




text \<open>
  C3 as stated fails: with the message \<open>I hate this so much\<close> the rule stage gives
  severity high with confidence 0.8, the classifier answers severity low with confidence
  0.95, both stages run, and the merged confidence is 0.8, not the maximum 0.95.
\<close>

theorem merged_confidence_counterexample:
  "needs_ai ''I hate this so much'' (applyRuleBasedModeration ''I hate this so much'')
   \<and> ai_flags (fst (performAIAnalysis lenient_classifier ''I hate this so much''
          memory_world)) = Flags []
   \<and> rb_confidence (applyRuleBasedModeration ''I hate this so much'') = 8 / 10
   \<and> ai_confidence (fst (performAIAnalysis lenient_classifier ''I hate this so much''
          memory_world)) = 19 / 20
   \<and> a_confidence (fst (analyzeContent lenient_classifier ''I hate this so much''
          some_context some_clock memory_world)) = 8 / 10
   \<and> a_confidence (fst (analyzeContent lenient_classifier ''I hate this so much''
          some_context some_clock memory_world))
       \<noteq> max (rb_confidence (applyRuleBasedModeration ''I hate this so much''))
             (ai_confidence (fst (performAIAnalysis lenient_classifier ''I hate this so much''
                memory_world)))"
  by (simp add: analyzeContent_def Let_def needs_ai_def rule_stage_hate_message
      performAIAnalysis_def lenient_classifier_def or_none_def take_rule_result_def
      initial_analysis_def take_higher_severity_def getSeverityLevel_def)

text \<open>
  C3, amended. When both stages run: if the classifier stage's flags are a list, the
  merged severity is the higher of the two, the rule stage's on a tie; the merged
  confidence is the maximum of the two only when the classifier's severity is strictly
  higher, and the rule stage's otherwise; the merged flags are the rule stage's followed
  by the classifier's, nothing removed. If the classifier's flags cannot be spread, the
  catch branch of \<open>analyzeContent\<close> returns the error verdict instead: severity
  \<open>none\<close>, no flags, confidence 0.
\<close>

theorem merge_of_rule_and_ai_verdicts:
  assumes "needs_ai content (applyRuleBasedModeration content)"
  shows
    "(ai_flags (fst (performAIAnalysis classifier content w)) = Flags fs \<longrightarrow>
        getSeverityLevel (a_severity (fst (analyzeContent classifier content ctx clk w)))
          = max (getSeverityLevel (rb_severity (applyRuleBasedModeration content)))
                (getSeverityLevel (ai_severity (fst (performAIAnalysis classifier content w))))
      \<and> a_severity (fst (analyzeContent classifier content ctx clk w))
          = (if getSeverityLevel (ai_severity (fst (performAIAnalysis classifier content w)))
                  > getSeverityLevel (rb_severity (applyRuleBasedModeration content))
             then ai_severity (fst (performAIAnalysis classifier content w))
             else rb_severity (applyRuleBasedModeration content))
      \<and> a_action (fst (analyzeContent classifier content ctx clk w))
          = (if getSeverityLevel (ai_severity (fst (performAIAnalysis classifier content w)))
                  > getSeverityLevel (rb_severity (applyRuleBasedModeration content))
             then ai_action (fst (performAIAnalysis classifier content w))
             else rb_action (applyRuleBasedModeration content))
      \<and> a_confidence (fst (analyzeContent classifier content ctx clk w))
          = (if getSeverityLevel (ai_severity (fst (performAIAnalysis classifier content w)))
                  > getSeverityLevel (rb_severity (applyRuleBasedModeration content))
             then max (rb_confidence (applyRuleBasedModeration content))
                      (ai_confidence (fst (performAIAnalysis classifier content w)))
             else rb_confidence (applyRuleBasedModeration content))
      \<and> a_flags (fst (analyzeContent classifier content ctx clk w))
          = rb_flags (applyRuleBasedModeration content) @ fs
      \<and> a_error (fst (analyzeContent classifier content ctx clk w)) = None)
     \<and> (ai_flags (fst (performAIAnalysis classifier content w)) = NotIterable \<longrightarrow>
        fst (analyzeContent classifier content ctx clk w)
          = \<lparr>a_content = content, a_timestamp = None, a_severity = ''none'', a_flags = [],
             a_action = ''none'', a_confidence = 0, a_sessionId = None,
             a_participantId = None, a_aiAnalysis = None,
             a_error = Some ''aiResult.flags is not iterable''\<rparr>)"
proof -
  obtain aiResult w1 where ai: "performAIAnalysis classifier content w = (aiResult, w1)"
    by (cases "performAIAnalysis classifier content w")
  show ?thesis
  proof (cases "ai_flags aiResult")
    case (Flags gs)
    show ?thesis
      unfolding analyzeContent_merged [OF assms ai Flags] ai fst_conv
      by (simp add: Flags take_higher_severity_def rule_verdict_def)
  next
    case NotIterable
    show ?thesis
      unfolding analyzeContent_thrown [OF assms ai NotIterable] ai fst_conv
      by (simp add: NotIterable error_verdict_def)
  qed
qed

theorem merge_of_rule_and_ai_verdicts_witness:
  "needs_ai ''I hate this so much'' (applyRuleBasedModeration ''I hate this so much'')
   \<and> ai_flags (fst (performAIAnalysis lenient_classifier ''I hate this so much''
          memory_world)) = Flags []
   \<and> a_severity (fst (analyzeContent lenient_classifier ''I hate this so much''
          some_context some_clock memory_world)) = ''high''
   \<and> a_confidence (fst (analyzeContent lenient_classifier ''I hate this so much''
          some_context some_clock memory_world)) = 8 / 10
   \<and> a_flags (fst (analyzeContent lenient_classifier ''I hate this so much''
          some_context some_clock memory_world)) = [KeywordFlag ''harassment'' ''hate'' 2]
   \<and> ai_flags (fst (performAIAnalysis malformed_classifier ''I hate this so much''
          memory_world)) = NotIterable
   \<and> a_severity (fst (analyzeContent malformed_classifier ''I hate this so much''
          some_context some_clock memory_world)) = ''none''
   \<and> a_flags (fst (analyzeContent malformed_classifier ''I hate this so much''
          some_context some_clock memory_world)) = []"
proof -
  have runs: "needs_ai ''I hate this so much'' (applyRuleBasedModeration ''I hate this so much'')"
    by (simp add: needs_ai_def rule_stage_hate_message)
  have flags: "ai_flags (fst (performAIAnalysis lenient_classifier ''I hate this so much''
          memory_world)) = Flags []"
    by (simp add: performAIAnalysis_def lenient_classifier_def Let_def)
  have low: "ai_severity (fst (performAIAnalysis lenient_classifier ''I hate this so much''
          memory_world)) = ''low''"
    by (simp add: performAIAnalysis_def lenient_classifier_def Let_def or_none_def)
  have bad: "ai_flags (fst (performAIAnalysis malformed_classifier ''I hate this so much''
          memory_world)) = NotIterable"
    by (simp add: performAIAnalysis_def malformed_classifier_def Let_def)
  have merged:
    "a_severity (fst (analyzeContent lenient_classifier ''I hate this so much''
          some_context some_clock memory_world)) = ''high''
     \<and> a_confidence (fst (analyzeContent lenient_classifier ''I hate this so much''
          some_context some_clock memory_world)) = 8 / 10
     \<and> a_flags (fst (analyzeContent lenient_classifier ''I hate this so much''
          some_context some_clock memory_world)) = [KeywordFlag ''harassment'' ''hate'' 2]"
    using flags
      merge_of_rule_and_ai_verdicts [OF runs, where classifier = lenient_classifier
        and w = memory_world and fs = "[]" and ctx = some_context and clk = some_clock]
    by (simp add: low rule_stage_hate_message getSeverityLevel_def)
  have thrown:
    "a_severity (fst (analyzeContent malformed_classifier ''I hate this so much''
          some_context some_clock memory_world)) = ''none''
     \<and> a_flags (fst (analyzeContent malformed_classifier ''I hate this so much''
          some_context some_clock memory_world)) = []"
    using bad
      merge_of_rule_and_ai_verdicts [OF runs, where classifier = malformed_classifier
        and w = memory_world and ctx = some_context and clk = some_clock]
    by simp
  show ?thesis
    using runs flags bad merged thrown by (simp only: simp_thms)
qed

text \<open>
  C4. When the classifier call fails or its answer does not parse, \<open>analyzeContent\<close>
  returns the verdict made of the rule-stage result alone (severity, action, confidence
  and flags of the rule stage, no classifier details) and the verdict carries no error.
\<close>

theorem ai_failure_falls_back_to_rules:
  assumes "classifier content = ClassifierFailed"
  shows "fst (analyzeContent classifier content ctx clk w) = rule_verdict content ctx clk
       \<and> a_error (fst (analyzeContent classifier content ctx clk w)) = None"
proof (cases "needs_ai content (applyRuleBasedModeration content)")
  case False
  then show ?thesis by (simp add: analyzeContent_skipped rule_verdict_def)
next
  case True
  obtain aiResult w1 where ai: "performAIAnalysis classifier content w = (aiResult, w1)"
    by (cases "performAIAnalysis classifier content w")
  with assms have fields: "ai_severity aiResult = ''none''" "ai_flags aiResult = Flags []"
    "ai_details aiResult = None"
    by (auto simp: performAIAnalysis_def Let_def)
  have "take_higher_severity (rule_verdict content ctx clk) aiResult = rule_verdict content ctx clk"
    by (simp add: take_higher_severity_def fields getSeverityLevel_def)
  then show ?thesis
    using analyzeContent_merged [OF True ai fields(2)]
    by (simp add: fields rule_verdict_def)
qed

theorem ai_failure_falls_back_to_rules_witness:
  "(\<lambda>c. ClassifierFailed) ''I hate this so much'' = ClassifierFailed
   \<and> needs_ai ''I hate this so much'' (applyRuleBasedModeration ''I hate this so much'')
   \<and> a_severity (fst (analyzeContent (\<lambda>c. ClassifierFailed) ''I hate this so much''
          some_context some_clock memory_world)) = ''high''
   \<and> a_action (fst (analyzeContent (\<lambda>c. ClassifierFailed) ''I hate this so much''
          some_context some_clock memory_world)) = ''warn_and_monitor''
   \<and> a_confidence (fst (analyzeContent (\<lambda>c. ClassifierFailed) ''I hate this so much''
          some_context some_clock memory_world)) = 8 / 10
   \<and> a_error (fst (analyzeContent (\<lambda>c. ClassifierFailed) ''I hate this so much''
          some_context some_clock memory_world)) = None"
proof -
  have failed: "(\<lambda>c. ClassifierFailed) ''I hate this so much'' = ClassifierFailed"
    by simp
  have runs: "needs_ai ''I hate this so much'' (applyRuleBasedModeration ''I hate this so much'')"
    by (simp add: needs_ai_def rule_stage_hate_message)
  show ?thesis
    using runs
      ai_failure_falls_back_to_rules [OF failed, where ctx = some_context
        and clk = some_clock and w = memory_world]
    by (simp add: rule_verdict_def rule_stage_hate_message)
qed

text \<open>
  C10. The classifier stage needs \<open>content.length > 10\<close>, so 11 is the least length at
  which it can run: a shorter message never reaches the classifier, and a message of
  length exactly 11 reaches it if and only if the rule stage is not definitive.
\<close>

theorem ai_stage_at_length_threshold:
  "(length content < 11 \<longrightarrow>
      classifier_calls (snd (analyzeContent classifier content ctx clk w)) = classifier_calls w)
   \<and> (length content = 11 \<longrightarrow>
        (classifier_calls (snd (analyzeContent classifier content ctx clk w))
           = classifier_calls w @ [content])
        = (\<not> rb_definitive (applyRuleBasedModeration content)))
   \<and> (length content = 11 \<and> rb_definitive (applyRuleBasedModeration content) \<longrightarrow>
        classifier_calls (snd (analyzeContent classifier content ctx clk w))
          = classifier_calls w)"
proof (intro conjI impI)
  assume "length content < 11"
  then show "classifier_calls (snd (analyzeContent classifier content ctx clk w))
      = classifier_calls w"
    by (simp add: analyzeContent_no_ai needs_ai_def)
next
  assume len: "length content = 11"
  show "(classifier_calls (snd (analyzeContent classifier content ctx clk w))
           = classifier_calls w @ [content])
        = (\<not> rb_definitive (applyRuleBasedModeration content))"
  proof (cases "rb_definitive (applyRuleBasedModeration content)")
    case True
    then show ?thesis by (simp add: analyzeContent_no_ai needs_ai_def)
  next
    case False
    with len show ?thesis by (simp add: analyzeContent_ai needs_ai_def)
  qed
next
  assume "length content = 11 \<and> rb_definitive (applyRuleBasedModeration content)"
  then show "classifier_calls (snd (analyzeContent classifier content ctx clk w))
      = classifier_calls w"
    by (simp add: analyzeContent_no_ai needs_ai_def)
qed

theorem ai_stage_at_length_threshold_witness:
  "length ''hello world'' = 11
   \<and> \<not> rb_definitive (applyRuleBasedModeration ''hello world'')
   \<and> classifier_calls (snd (analyzeContent lenient_classifier ''hello world''
        some_context some_clock memory_world)) = [''hello world'']
   \<and> length ''kill myself'' = 11
   \<and> rb_definitive (applyRuleBasedModeration ''kill myself'')
   \<and> classifier_calls (snd (analyzeContent lenient_classifier ''kill myself''
        some_context some_clock memory_world)) = []
   \<and> length ''hello worl'' < 11
   \<and> classifier_calls (snd (analyzeContent lenient_classifier ''hello worl''
        some_context some_clock memory_world)) = []"
proof -
  have empty: "classifier_calls memory_world = []"
    by (simp add: memory_world_def)
  show ?thesis
    using rule_stage_kill_myself rule_stage_hello_world
      ai_stage_at_length_threshold [where content = "''hello world''"
        and classifier = lenient_classifier and ctx = some_context and clk = some_clock
        and w = memory_world]
      ai_stage_at_length_threshold [where content = "''kill myself''"
        and classifier = lenient_classifier and ctx = some_context and clk = some_clock
        and w = memory_world]
      ai_stage_at_length_threshold [where content = "''hello worl''"
        and classifier = lenient_classifier and ctx = some_context and clk = some_clock
        and w = memory_world]
    by (simp add: empty)
qed

section \<open>Claims on the store\<close>

text \<open>
  C7 as stated fails: with no backend, \<open>setSessionState\<close> succeeds and keeps the
  snapshot in the fallback table, and no TTL is written anywhere.
\<close>

theorem fallback_write_without_ttl_counterexample:
  "w_redis memory_world = None
   \<and> fst (setSessionState ''s1'' some_session some_clock memory_world)
   \<and> sessionStates (snd (setSessionState ''s1'' some_session some_clock memory_world)) ''s1''
       = Some (some_session\<lparr>ss_timestamp := Some 42\<rparr>)
   \<and> ttls_sent memory_world (snd (setSessionState ''s1'' some_session some_clock memory_world))
       = []
   \<and> backend_entry (snd (setSessionState ''s1'' some_session some_clock memory_world))
         ''live_sanctuary:s1'' = None"
  by (simp add: setSessionState_def memory_world_def ttls_sent_def sent_by_def
      backend_entry_def some_clock_def List.map_filter_simps)

text \<open>
  C7, amended. On the backend the store writes the four retention classes:
  \<open>setSessionState\<close> sends one command with a TTL, of 86400 seconds,
  \<open>setVoiceConfig\<close> one of 3600, \<open>logModerationEvent\<close> one of 604800 for the entry
  and, if the first two commands are accepted, one more of 604800 for the list,
  \<open>storeEmergencyAlert\<close> likewise with 2592000; when the backend accepts the write of
  the entry, the entry is kept under its key with that TTL. With no backend the four
  writers succeed, keep the entry in the fallback structures and write no TTL.
\<close>

theorem retention_ttls:
  "ttls_sent w (snd (setSessionState sid state clk w))
     = (case w_redis w of None \<Rightarrow> [] | Some r \<Rightarrow> [86400])
   \<and> ttls_sent w (snd (setVoiceConfig sid pid cfg clk w))
     = (case w_redis w of None \<Rightarrow> [] | Some r \<Rightarrow> [3600])
   \<and> ttls_sent w (snd (store_logModerationEvent sid' ev clk w))
     = (case w_redis w of
          None \<Rightarrow> []
        | Some r \<Rightarrow> 604800 # (if True \<in> set (take 2 (r_faults r)) then [] else [604800]))
   \<and> ttls_sent w (snd (storeEmergencyAlert sid alert clk w))
     = (case w_redis w of
          None \<Rightarrow> []
        | Some r \<Rightarrow> 2592000 # (if True \<in> set (take 2 (r_faults r)) then [] else [2592000]))
   \<and> (backend_accepts 1 w \<longrightarrow>
        backend_entry (snd (setSessionState sid state clk w)) (''live_sanctuary:'' @ sid)
          = Some (86400, SessionData (state\<lparr>ss_timestamp := Some (now_ms clk),
                                              ss_lastUpdated := Some (now_iso clk)\<rparr>))
      \<and> backend_entry (snd (setVoiceConfig sid pid cfg clk w))
             (''voice_config:'' @ sid @ '':'' @ pid)
          = Some (3600, VoiceData \<lparr>vc_fields = cfg, vc_timestamp = now_ms clk,
                                    vc_sessionId = sid, vc_participantId = pid\<rparr>)
      \<and> backend_entry (snd (store_logModerationEvent sid' ev clk w))
             (''moderation:'' @ template_of sid' @ '':'' @ digits_of (now_ms clk))
          = Some (604800, EventData (moderation_event.extend ev
               \<lparr>ml_sessionId = sid', ml_timestamp = now_ms clk,
                ml_id = ''moderation:'' @ template_of sid' @ '':'' @ digits_of (now_ms clk)\<rparr>))
      \<and> backend_entry (snd (storeEmergencyAlert sid alert clk w))
             (''emergency:'' @ sid @ '':'' @ digits_of (now_ms clk))
          = Some (2592000, AlertData
               \<lparr>sa_type = al_type alert, sa_participantId = al_participantId alert,
                sa_content = al_content alert, sa_autoResponse = al_autoResponse alert,
                sa_sessionId = sid, sa_timestamp = now_ms clk,
                sa_id = ''emergency:'' @ sid @ '':'' @ digits_of (now_ms clk),
                sa_severity = severity_or_high (al_severity alert)\<rparr>))
   \<and> (w_redis w = None \<longrightarrow>
        fst (setSessionState sid state clk w)
      \<and> sessionStates (snd (setSessionState sid state clk w)) sid
          = Some (state\<lparr>ss_timestamp := Some (now_ms clk)\<rparr>)
      \<and> fst (setVoiceConfig sid pid cfg clk w)
      \<and> voiceConfigs (snd (setVoiceConfig sid pid cfg clk w))
            (''voice_config:'' @ sid @ '':'' @ pid)
          = Some \<lparr>vc_fields = cfg, vc_timestamp = now_ms clk,
                   vc_sessionId = sid, vc_participantId = pid\<rparr>
      \<and> fst (store_logModerationEvent sid' ev clk w)
      \<and> moderationLogs (snd (store_logModerationEvent sid' ev clk w))
          = moderationLogs w @ [moderation_event.extend ev
               \<lparr>ml_sessionId = sid', ml_timestamp = now_ms clk,
                ml_id = ''moderation:'' @ template_of sid' @ '':'' @ digits_of (now_ms clk)\<rparr>]
      \<and> fst (storeEmergencyAlert sid alert clk w)
      \<and> emergencyAlerts (snd (storeEmergencyAlert sid alert clk w))
          = emergencyAlerts w @
              [\<lparr>sa_type = al_type alert, sa_participantId = al_participantId alert,
                sa_content = al_content alert, sa_autoResponse = al_autoResponse alert,
                sa_sessionId = sid, sa_timestamp = now_ms clk,
                sa_id = ''emergency:'' @ sid @ '':'' @ digits_of (now_ms clk),
                sa_severity = severity_or_high (al_severity alert)\<rparr>])"
proof (intro conjI impI)
  show "ttls_sent w (snd (setSessionState sid state clk w))
     = (case w_redis w of None \<Rightarrow> [] | Some r \<Rightarrow> [86400])"
    by (simp add: ttls_sent_def setSessionState_sent List.map_filter_simps split: option.splits)
  show "ttls_sent w (snd (setVoiceConfig sid pid cfg clk w))
     = (case w_redis w of None \<Rightarrow> [] | Some r \<Rightarrow> [3600])"
    by (simp add: ttls_sent_def setVoiceConfig_sent List.map_filter_simps split: option.splits)
  show "ttls_sent w (snd (store_logModerationEvent sid' ev clk w))
     = (case w_redis w of
          None \<Rightarrow> []
        | Some r \<Rightarrow> 604800 # (if True \<in> set (take 2 (r_faults r)) then [] else [604800]))"
    by (auto simp: ttls_sent_def store_logModerationEvent_sent List.map_filter_simps
        split: option.splits dest: in_set_takeD
        intro: set_take_subset_set_take [of 1 2, THEN subsetD, simplified])
  show "ttls_sent w (snd (storeEmergencyAlert sid alert clk w))
     = (case w_redis w of
          None \<Rightarrow> []
        | Some r \<Rightarrow> 2592000 # (if True \<in> set (take 2 (r_faults r)) then [] else [2592000]))"
    by (auto simp: ttls_sent_def storeEmergencyAlert_sent List.map_filter_simps
        split: option.splits dest: in_set_takeD
        intro: set_take_subset_set_take [of 1 2, THEN subsetD, simplified])
next
  assume acc: "backend_accepts 1 w"
  show "backend_entry (snd (setSessionState sid state clk w)) (''live_sanctuary:'' @ sid)
          = Some (86400, SessionData (state\<lparr>ss_timestamp := Some (now_ms clk),
                                              ss_lastUpdated := Some (now_iso clk)\<rparr>))"
    by (rule setSessionState_accepted [OF acc])
  show "backend_entry (snd (setVoiceConfig sid pid cfg clk w))
             (''voice_config:'' @ sid @ '':'' @ pid)
          = Some (3600, VoiceData \<lparr>vc_fields = cfg, vc_timestamp = now_ms clk,
                                    vc_sessionId = sid, vc_participantId = pid\<rparr>)"
    by (rule setVoiceConfig_accepted [OF acc])
  show "backend_entry (snd (store_logModerationEvent sid' ev clk w))
             (''moderation:'' @ template_of sid' @ '':'' @ digits_of (now_ms clk))
          = Some (604800, EventData (moderation_event.extend ev
               \<lparr>ml_sessionId = sid', ml_timestamp = now_ms clk,
                ml_id = ''moderation:'' @ template_of sid' @ '':'' @ digits_of (now_ms clk)\<rparr>))"
    using store_logModerationEvent_first_accepted [OF acc, of sid' ev clk]
    by (simp add: moderation_key_def moderation_data_def)
  show "backend_entry (snd (storeEmergencyAlert sid alert clk w))
             (''emergency:'' @ sid @ '':'' @ digits_of (now_ms clk))
          = Some (2592000, AlertData
               \<lparr>sa_type = al_type alert, sa_participantId = al_participantId alert,
                sa_content = al_content alert, sa_autoResponse = al_autoResponse alert,
                sa_sessionId = sid, sa_timestamp = now_ms clk,
                sa_id = ''emergency:'' @ sid @ '':'' @ digits_of (now_ms clk),
                sa_severity = severity_or_high (al_severity alert)\<rparr>)"
    using storeEmergencyAlert_first_accepted [OF acc, of sid alert clk]
    by (simp add: emergency_key_def emergency_data_def)
qed (simp_all add: setSessionState_def setVoiceConfig_def store_logModerationEvent_def
    storeEmergencyAlert_def moderation_key_def moderation_data_def emergency_key_def
    emergency_data_def Let_def)

theorem retention_ttls_witness:
  "backend_accepts 1 (backend_world [])
   \<and> backend_entry
         (snd (setSessionState ''s1'' some_session some_clock (backend_world [])))
         ''live_sanctuary:s1''
       = Some (86400, SessionData (some_session\<lparr>ss_timestamp := Some 42,
                 ss_lastUpdated := Some (now_iso some_clock)\<rparr>))
   \<and> map_option fst (backend_entry
         (snd (setVoiceConfig ''s1'' ''p1'' Map.empty some_clock (backend_world [])))
         ''voice_config:s1:p1'') = Some 3600
   \<and> map_option fst (backend_entry
         (snd (store_logModerationEvent (Some ''s1'')
                (event_of (rule_verdict ''hello'' some_context some_clock)) some_clock
                (backend_world [])))
         ''moderation:s1:42'') = Some 604800
   \<and> map_option fst (backend_entry
         (snd (storeEmergencyAlert ''s1''
                (crisis_alert (rule_verdict crisis_message some_context some_clock) ''p1'')
                some_clock (backend_world [])))
         ''emergency:s1:42'') = Some 2592000
   \<and> ttls_sent (backend_world [])
         (snd (storeEmergencyAlert ''s1''
                (crisis_alert (rule_verdict crisis_message some_context some_clock) ''p1'')
                some_clock (backend_world []))) = [2592000, 2592000]
   \<and> ttls_sent (backend_world [False, True])
         (snd (store_logModerationEvent (Some ''s1'')
                (event_of (rule_verdict ''hello'' some_context some_clock)) some_clock
                (backend_world [False, True]))) = [604800]
   \<and> w_redis memory_world = None
   \<and> fst (setVoiceConfig ''s1'' ''p1'' Map.empty some_clock memory_world)
   \<and> ttls_sent memory_world
         (snd (setVoiceConfig ''s1'' ''p1'' Map.empty some_clock memory_world)) = []
   \<and> map_option vc_timestamp
         (voiceConfigs (snd (setVoiceConfig ''s1'' ''p1'' Map.empty some_clock memory_world))
            ''voice_config:s1:p1'') = Some 42"
proof -
  have a1: "backend_accepts 1 (backend_world [])"
    by (simp add: backend_accepts_def backend_world_def)
  have m: "w_redis memory_world = None"
    by (simp add: memory_world_def)
  have d: "digits_of 42 = ''42''"
    by (simp add: digits_of.simps digit_char_def)
  have c: "now_ms some_clock = 42"
    by (simp add: some_clock_def)
  note t = retention_ttls [where sid = "''s1''" and pid = "''p1''"
        and state = some_session and clk = some_clock and cfg = Map.empty
        and sid' = "Some ''s1''"
        and ev = "event_of (rule_verdict ''hello'' some_context some_clock)"
        and alert = "crisis_alert (rule_verdict crisis_message some_context some_clock) ''p1''"]
  show ?thesis
    using a1 m t [where w = "backend_world []"] t [where w = "backend_world [False, True]"]
      t [where w = memory_world]
    by (simp add: c d template_of_def backend_world_def)
qed

text \<open>
  C6 as stated fails: when the backend rejects the write of the crisis alert,
  \<open>executeModerationAction\<close> has sent that write once, the failure is on the console, and
  the alert is not stored; there is no second attempt.
\<close>

theorem emergency_alert_retry_counterexample:
  "backend_rejects_next (backend_world [True])
   \<and> a_action (rule_verdict crisis_message some_context some_clock) = ''immediate_intervention''
   \<and> length (filter is_alert_write
        (sent_by (backend_world [True])
           (snd (executeModerationAction (rule_verdict crisis_message some_context some_clock)
                   ''s1'' ''p1'' some_clock (backend_world [True]))))) = 1
   \<and> backend_entry
        (snd (executeModerationAction (rule_verdict crisis_message some_context some_clock)
                ''s1'' ''p1'' some_clock (backend_world [True])))
        (emergency_key ''s1'' some_clock) = None
   \<and> console
        (snd (executeModerationAction (rule_verdict crisis_message some_context some_clock)
                ''s1'' ''p1'' some_clock (backend_world [True])))
       = [''Failed to store emergency alert:'']"
proof -
  have rule: "applyRuleBasedModeration crisis_message =
     \<lparr>rb_flags = [KeywordFlag ''crisis_detection'' ''kill myself'' 10],
      rb_severity = ''critical'', rb_action = ''immediate_intervention'',
      rb_confidence = 8 / 10, rb_definitive = True\<rparr>"
    unfolding crisis_message_def by (rule rule_stage_crisis_message)
  have action: "a_action (rule_verdict crisis_message some_context some_clock)
      = ''immediate_intervention''"
    and none: "supportiveResponse_of (a_aiAnalysis (rule_verdict crisis_message some_context
      some_clock)) = None"
    by (simp_all add: rule_verdict_def rule supportiveResponse_of_def)
  let ?a = "rule_verdict crisis_message some_context some_clock"
  let ?w1 = "emit ''moderators'' ''crisis_alert''
               (CrisisAlert ''s1'' ''p1'' (a_content ?a) (a_severity ?a) (now_iso some_clock))
               (backend_world [True])"
  let ?w2 = "snd (storeEmergencyAlert ''s1'' (crisis_alert ?a ''p1'') some_clock ?w1)"
  have exec: "snd (executeModerationAction ?a ''s1'' ''p1'' some_clock (backend_world [True]))
      = ?w2"
    by (simp only: executeModerationAction_crisis [OF action none] snd_conv)
  have rej0: "backend_rejects_next (backend_world [True])"
    by (simp add: backend_rejects_next_def backend_world_def)
  have rej: "backend_rejects_next ?w1"
    by (simp add: backend_rejects_next_def backend_world_def emit_def)
  have before: "backend_entry ?w1 k = None" "console ?w1 = []" for k
    by (simp_all add: backend_entry_def backend_world_def emit_def memory_world_def)
  have "sent_by (backend_world [True]) ?w2 = sent_by ?w1 ?w2"
    by (simp add: sent_by_def emit_def)
  then have once: "length (filter is_alert_write (sent_by (backend_world [True]) ?w2)) = 1"
    by (simp add: storeEmergencyAlert_rejected(5) [OF rej])
  have entry: "backend_entry ?w2 (emergency_key ''s1'' some_clock) = None"
    by (simp add: storeEmergencyAlert_rejected(2) [OF rej] before)
  have logged: "console ?w2 = [''Failed to store emergency alert:'']"
    by (simp add: storeEmergencyAlert_rejected(3) [OF rej] before)
  show ?thesis
    unfolding exec using rej0 action once entry logged by (simp only: simp_thms)
qed

text \<open>
  C6, amended. \<open>storeEmergencyAlert\<close> attempts the write of an alert once on the backend
  and never again; when that write is rejected, the call returns false, the alert is
  stored neither on the backend nor in the fallback, and the failure is logged on the
  console.
\<close>

theorem emergency_alert_written_once:
  "length (filter is_alert_write (sent_by w (snd (storeEmergencyAlert sid alert clk w))))
     = (if w_redis w = None then 0 else 1)
   \<and> (backend_rejects_next w \<longrightarrow>
        \<not> fst (storeEmergencyAlert sid alert clk w)
        \<and> sent_by w (snd (storeEmergencyAlert sid alert clk w))
           = [SETEX (emergency_key sid clk) 2592000 (AlertData (emergency_data sid alert clk))]
        \<and> backend_entry (snd (storeEmergencyAlert sid alert clk w)) (emergency_key sid clk)
           = backend_entry w (emergency_key sid clk)
        \<and> emergencyAlerts (snd (storeEmergencyAlert sid alert clk w)) = emergencyAlerts w
        \<and> console (snd (storeEmergencyAlert sid alert clk w))
           = console w @ [''Failed to store emergency alert:''])"
proof (intro conjI impI)
  show "length (filter is_alert_write (sent_by w (snd (storeEmergencyAlert sid alert clk w))))
     = (if w_redis w = None then 0 else 1)"
    by (simp add: storeEmergencyAlert_sent split: option.splits)
qed (simp_all add: storeEmergencyAlert_rejected)

theorem emergency_alert_written_once_witness:
  "backend_rejects_next (backend_world [True])
   \<and> \<not> fst (storeEmergencyAlert ''s1''
              (crisis_alert (rule_verdict crisis_message some_context some_clock) ''p1'')
              some_clock (backend_world [True]))
   \<and> console (snd (storeEmergencyAlert ''s1''
              (crisis_alert (rule_verdict crisis_message some_context some_clock) ''p1'')
              some_clock (backend_world [True])))
       = [''Failed to store emergency alert:'']
   \<and> length (sent_by (backend_world [True]) (snd (storeEmergencyAlert ''s1''
              (crisis_alert (rule_verdict crisis_message some_context some_clock) ''p1'')
              some_clock (backend_world [True])))) = 1"
proof -
  have rej: "backend_rejects_next (backend_world [True])"
    by (simp add: backend_rejects_next_def backend_world_def)
  have quiet: "console (backend_world [True]) = []"
    by (simp add: backend_world_def memory_world_def)
  show ?thesis
    using rej
      emergency_alert_written_once [where w = "backend_world [True]" and sid = "''s1''"
        and alert = "crisis_alert (rule_verdict crisis_message some_context some_clock) ''p1''"
        and clk = some_clock]
    by (simp add: quiet)
qed

text \<open>
  C5 as stated fails: when the backend rejects the write of the moderation entry,
  \<open>analyzeContent\<close> still returns the verdict, without an error, and the store holds no
  entry for it; the failure is only logged on the console. And when the classifier's
  \<open>flags\<close> cannot be spread, the \<open>catch\<close> branch returns its verdict before any log call.
\<close>

theorem verdict_not_persisted_counterexample:
  "a_error (fst (analyzeContent lenient_classifier ''hello'' some_context some_clock
                   (backend_world [True]))) = None
   \<and> a_severity (fst (analyzeContent lenient_classifier ''hello'' some_context some_clock
                   (backend_world [True]))) = ''none''
   \<and> \<not> persisted
         (fst (analyzeContent lenient_classifier ''hello'' some_context some_clock
                 (backend_world [True])))
         (snd (analyzeContent lenient_classifier ''hello'' some_context some_clock
                 (backend_world [True])))
   \<and> console (snd (analyzeContent lenient_classifier ''hello'' some_context some_clock
                 (backend_world [True])))
       = [''Failed to log moderation event:'']
   \<and> a_error (fst (analyzeContent malformed_classifier ''I hate this so much'' some_context
                   some_clock memory_world)) = Some ''aiResult.flags is not iterable''
   \<and> \<not> persisted
         (fst (analyzeContent malformed_classifier ''I hate this so much'' some_context
                 some_clock memory_world))
         (snd (analyzeContent malformed_classifier ''I hate this so much'' some_context
                 some_clock memory_world))"
proof -
  let ?v = "rule_verdict ''hello'' some_context some_clock"
  let ?w' = "snd (store_logModerationEvent (a_sessionId ?v) (event_of ?v) some_clock
                    (backend_world [True]))"
  have skip: "\<not> needs_ai ''hello'' (applyRuleBasedModeration ''hello'')"
    by (simp add: needs_ai_def)
  have rej: "backend_rejects_next (backend_world [True])"
    by (simp add: backend_rejects_next_def backend_world_def)
  have before: "backend_entry (backend_world [True]) k = None" "console (backend_world [True]) = []"
    for k
    by (simp_all add: backend_entry_def backend_world_def memory_world_def)
  have "\<not> persisted ?v ?w'"
    by (rule not_persisted_on_empty_backend)
      (simp_all add: store_logModerationEvent_rejected [OF rej] before)
  moreover have "console ?w' = [''Failed to log moderation event:'']"
    by (simp add: store_logModerationEvent_rejected [OF rej] before)
  moreover have "a_error ?v = None" "a_severity ?v = ''none''"
    by (simp_all add: rule_verdict_def rule_stage_hello rule_result_init_def)
  ultimately have rejected:
    "a_error (fst (analyzeContent lenient_classifier ''hello'' some_context some_clock
                   (backend_world [True]))) = None
     \<and> a_severity (fst (analyzeContent lenient_classifier ''hello'' some_context some_clock
                   (backend_world [True]))) = ''none''
     \<and> \<not> persisted
         (fst (analyzeContent lenient_classifier ''hello'' some_context some_clock
                 (backend_world [True])))
         (snd (analyzeContent lenient_classifier ''hello'' some_context some_clock
                 (backend_world [True])))
     \<and> console (snd (analyzeContent lenient_classifier ''hello'' some_context some_clock
                 (backend_world [True])))
       = [''Failed to log moderation event:'']"
    unfolding analyzeContent_skipped [OF skip] fst_conv snd_conv logModerationEvent_store
    by (simp only: simp_thms)
  have runs: "needs_ai ''I hate this so much'' (applyRuleBasedModeration ''I hate this so much'')"
    by (simp add: needs_ai_def rule_stage_hate_message)
  have ai: "performAIAnalysis malformed_classifier ''I hate this so much'' memory_world
      = (fst (performAIAnalysis malformed_classifier ''I hate this so much'' memory_world),
         snd (performAIAnalysis malformed_classifier ''I hate this so much'' memory_world))"
    by simp
  have flags: "ai_flags (fst (performAIAnalysis malformed_classifier ''I hate this so much''
      memory_world)) = NotIterable"
    by (simp add: performAIAnalysis_def malformed_classifier_def Let_def)
  have logs: "moderationLogs (snd (performAIAnalysis malformed_classifier
      ''I hate this so much'' memory_world)) = []"
    "w_redis (snd (performAIAnalysis malformed_classifier
      ''I hate this so much'' memory_world)) = None"
    by (simp_all add: performAIAnalysis_frame memory_world_def)
  have thrown:
    "a_error (fst (analyzeContent malformed_classifier ''I hate this so much'' some_context
                   some_clock memory_world)) = Some ''aiResult.flags is not iterable''
     \<and> \<not> persisted
         (fst (analyzeContent malformed_classifier ''I hate this so much'' some_context
                 some_clock memory_world))
         (snd (analyzeContent malformed_classifier ''I hate this so much'' some_context
                 some_clock memory_world))"
    unfolding analyzeContent_thrown [OF runs ai flags] fst_conv snd_conv
    by (simp add: error_verdict_def persisted_def console_error_def logs)
  from rejected thrown show ?thesis by (simp only: simp_thms)
qed

text \<open>
  C5, amended. Before it returns a verdict that has no error field, \<open>analyzeContent\<close>
  hands it to \<open>logModerationEvent\<close>: in the fallback the entry is appended to the
  moderation log, on the backend the entry's write is sent once, and the verdict is
  persisted whenever the store is the fallback or the backend accepts the three commands.
  The verdict of the \<open>catch\<close> branch, which has the error field, is returned without any
  log write.
\<close>

theorem verdicts_are_logged:
  "(a_error (fst (analyzeContent classifier content ctx clk w)) = None \<and> w_redis w = None \<longrightarrow>
      moderationLogs (snd (analyzeContent classifier content ctx clk w))
        = moderationLogs w @
            [moderation_data (ctx_sessionId ctx)
               (event_of (fst (analyzeContent classifier content ctx clk w))) clk]
      \<and> persisted (fst (analyzeContent classifier content ctx clk w))
            (snd (analyzeContent classifier content ctx clk w)))
   \<and> (a_error (fst (analyzeContent classifier content ctx clk w)) = None
        \<and> backend_accepts 3 w \<longrightarrow>
      persisted (fst (analyzeContent classifier content ctx clk w))
        (snd (analyzeContent classifier content ctx clk w)))
   \<and> (a_error (fst (analyzeContent classifier content ctx clk w)) = None
        \<and> w_redis w \<noteq> None \<longrightarrow>
      filter is_event_write (sent_by w (snd (analyzeContent classifier content ctx clk w)))
        = [SETEX (moderation_key (ctx_sessionId ctx) clk) 604800
             (EventData (moderation_data (ctx_sessionId ctx)
                (event_of (fst (analyzeContent classifier content ctx clk w))) clk))])
   \<and> (a_error (fst (analyzeContent classifier content ctx clk w)) \<noteq> None \<longrightarrow>
      moderationLogs (snd (analyzeContent classifier content ctx clk w)) = moderationLogs w
      \<and> sent_by w (snd (analyzeContent classifier content ctx clk w)) = [])"
proof (cases "needs_ai content (applyRuleBasedModeration content)")
  case False
  have sid: "a_sessionId (rule_verdict content ctx clk) = ctx_sessionId ctx"
    and ok: "a_error (rule_verdict content ctx clk) = None"
    by (simp_all add: rule_verdict_def)
  show ?thesis
    unfolding analyzeContent_skipped [OF False] fst_conv snd_conv
    using logged_after [of w w "rule_verdict content ctx clk" clk]
    by (simp add: sid ok)
next
  case True
  obtain aiResult w1 where ai: "performAIAnalysis classifier content w = (aiResult, w1)"
    by (cases "performAIAnalysis classifier content w")
  have same: "w_redis w1 = w_redis w" "moderationLogs w1 = moderationLogs w"
    using performAIAnalysis_frame [of classifier content w] by (simp_all add: ai)
  show ?thesis
  proof (cases "ai_flags aiResult")
    case NotIterable
    show ?thesis
      unfolding analyzeContent_thrown [OF True ai NotIterable] fst_conv snd_conv
      by (simp add: error_verdict_def same sent_by_nothing)
  next
    case (Flags fs)
    let ?v = "(take_higher_severity (rule_verdict content ctx clk) aiResult)
        \<lparr>a_flags := a_flags (take_higher_severity (rule_verdict content ctx clk) aiResult) @ fs,
         a_aiAnalysis := ai_details aiResult\<rparr>"
    have sid: "a_sessionId ?v = ctx_sessionId ctx" and ok: "a_error ?v = None"
      by (simp_all add: rule_verdict_def)
    show ?thesis
      unfolding analyzeContent_merged [OF True ai Flags] fst_conv snd_conv
      using logged_after [OF same, of ?v clk]
      by (simp add: sid ok del: take_higher_severity_error)
  qed
qed

theorem verdicts_are_logged_witness:
  "a_error (fst (analyzeContent lenient_classifier ''hello'' some_context some_clock
                   memory_world)) = None
   \<and> w_redis memory_world = None
   \<and> persisted (fst (analyzeContent lenient_classifier ''hello'' some_context some_clock
                       memory_world))
        (snd (analyzeContent lenient_classifier ''hello'' some_context some_clock memory_world))
   \<and> a_error (fst (analyzeContent lenient_classifier ''hello'' some_context some_clock
                   (backend_world []))) = None
   \<and> backend_accepts 3 (backend_world [])
   \<and> persisted (fst (analyzeContent lenient_classifier ''hello'' some_context some_clock
                       (backend_world [])))
        (snd (analyzeContent lenient_classifier ''hello'' some_context some_clock
                (backend_world [])))
   \<and> a_error (fst (analyzeContent malformed_classifier ''I hate this so much'' some_context
                   some_clock memory_world)) \<noteq> None
   \<and> moderationLogs (snd (analyzeContent malformed_classifier ''I hate this so much''
                   some_context some_clock memory_world)) = []"
proof -
  have skip: "\<not> needs_ai ''hello'' (applyRuleBasedModeration ''hello'')"
    by (simp add: needs_ai_def)
  have ok: "a_error (fst (analyzeContent lenient_classifier ''hello'' some_context some_clock w))
      = None" for w
    by (simp add: analyzeContent_skipped [OF skip] rule_verdict_def)
  have mem: "w_redis memory_world = None" "moderationLogs memory_world = []"
    by (simp_all add: memory_world_def)
  have acc: "backend_accepts 3 (backend_world [])"
    by (simp add: backend_accepts_def backend_world_def)
  have runs: "needs_ai ''I hate this so much'' (applyRuleBasedModeration ''I hate this so much'')"
    by (simp add: needs_ai_def rule_stage_hate_message)
  have thrown: "a_error (fst (analyzeContent malformed_classifier ''I hate this so much''
      some_context some_clock memory_world)) \<noteq> None"
    by (simp add: analyzeContent_def Let_def runs performAIAnalysis_def
        malformed_classifier_def error_verdict_def)
  have p1: "persisted (fst (analyzeContent lenient_classifier ''hello'' some_context some_clock
                       memory_world))
        (snd (analyzeContent lenient_classifier ''hello'' some_context some_clock memory_world))"
    using ok mem(1)
      verdicts_are_logged [where classifier = lenient_classifier and content = "''hello''"
        and ctx = some_context and clk = some_clock and w = memory_world]
    by blast
  have p2: "persisted (fst (analyzeContent lenient_classifier ''hello'' some_context some_clock
                       (backend_world [])))
        (snd (analyzeContent lenient_classifier ''hello'' some_context some_clock
                (backend_world [])))"
    using ok acc
      verdicts_are_logged [where classifier = lenient_classifier and content = "''hello''"
        and ctx = some_context and clk = some_clock and w = "backend_world []"]
    by blast
  have p3: "moderationLogs (snd (analyzeContent malformed_classifier ''I hate this so much''
                   some_context some_clock memory_world)) = moderationLogs memory_world"
    using thrown
      verdicts_are_logged [where classifier = malformed_classifier
        and content = "''I hate this so much''"
        and ctx = some_context and clk = some_clock and w = memory_world]
    by blast
  show ?thesis
    using ok mem acc thrown p1 p2 p3 by (simp only: simp_thms)
qed

section \<open>Claims on the roster\<close>



text \<open>
  C9 as stated fails: two calls of \<open>updateParticipant\<close> for the participant \<open>b\<close> on
  the session \<open>s1\<close>, with data that carries \<open>id: 'a'\<close>, leave two roster entries, both
  with the identifier \<open>a\<close>: the data's \<open>id\<close> overrides the participant's identifier in
  the pushed entry, which the next call then does not find.
\<close>

theorem join_duplicates_counterexample:
  "stored_roster lobby_world ''s1'' = []
   \<and> op_session join_b_as_a = ''s1''
   \<and> length (stored_roster (run_roster_ops [join_b_as_a, join_b_as_a] lobby_world) ''s1'') = 2
   \<and> id_count ''a'' (stored_roster (run_roster_ops [join_b_as_a, join_b_as_a] lobby_world)
         ''s1'') = 2
   \<and> id_count ''b'' (stored_roster (run_roster_ops [join_b_as_a, join_b_as_a] lobby_world)
         ''s1'') = 0"
  by (simp add: join_b_as_a_def roster_eval)

text \<open>
  C9, amended. When the data of each call carries no \<open>id\<close> other than the
  participant's own, any number of calls of \<open>updateParticipant\<close> for one participant on
  one session creates no duplicate: no identifier gains a second roster entry, the roster
  grows by at most one entry, and not at all when the participant is already present.
  An applied call for a participant who is present updates the entry in place, the data's
  fields overriding the entry's.
\<close>

theorem repeated_join_keeps_one_entry:
  assumes "\<forall>op \<in> set ops. is_join_of sid pid op"
  shows "id_count q (stored_roster (run_roster_ops ops w) sid)
           \<le> max 1 (id_count q (stored_roster w sid))
       \<and> length (stored_roster (run_roster_ops ops w) sid) \<le> Suc (length (stored_roster w sid))
       \<and> (0 < id_count pid (stored_roster w sid) \<longrightarrow>
            length (stored_roster (run_roster_ops ops w) sid) = length (stored_roster w sid))
       \<and> (findIndex (has_id pid) (stored_roster w sid) = Some i
            \<and> fst (updateParticipant sid pid data clk w) \<longrightarrow>
            stored_roster (snd (updateParticipant sid pid data clk w)) sid
              = (stored_roster w sid)[i := (stored_roster w sid ! i) ++ data])"
  using joins_count [OF assms] joins_length [OF assms] joins_length_present [OF assms]
    update_in_place
  by blast

theorem repeated_join_keeps_one_entry_witness:
  "is_join_of ''s1'' ''p1'' (join_p1 ''x'')
   \<and> is_join_of ''s1'' ''p1'' (join_p1 ''y'')
   \<and> id_count ''p1'' (stored_roster (run_roster_ops [join_p1 ''x'', join_p1 ''y''] lobby_world)
         ''s1'') \<le> 1
   \<and> length (stored_roster (run_roster_ops [join_p1 ''x'', join_p1 ''y''] lobby_world) ''s1'')
       \<le> 1
   \<and> map (\<lambda>p. p ''alias'')
        (stored_roster (run_roster_ops [join_p1 ''x'', join_p1 ''y''] lobby_world) ''s1'')
       = [Some (JStr ''y'')]"
proof -
  have joins: "\<forall>op \<in> set [join_p1 ''x'', join_p1 ''y'']. is_join_of ''s1'' ''p1'' op"
    by (simp add: join_p1_def keeps_id_def)
  have empty: "stored_roster lobby_world ''s1'' = []"
    by (simp add: roster_eval)
  have last: "map (\<lambda>p. p ''alias'')
        (stored_roster (run_roster_ops [join_p1 ''x'', join_p1 ''y''] lobby_world) ''s1'')
       = [Some (JStr ''y'')]"
    by (simp add: join_p1_def roster_eval)
  show ?thesis
    using joins last
      repeated_join_keeps_one_entry [OF joins, where q = "''p1''" and w = lobby_world]
    by (simp add: empty id_count_def)
qed

end
